theory Spec2Isabelle
  imports Main "HOL-Library.Signed_Division"
begin

section \<open>Data model (food.h, data_manager.h, ui_manager.h, constants.h)\<close>

text \<open>
  The C++ type \<open>int\<close> is modelled by \<open>int\<close>; where the source can leave the 32-bit
  range (the product in the template scaling, the conversions of \<open>std::stoi\<close> and of
  \<open>operator>>\<close>) the range check or the wrap-around is written out.  A
  \<open>std::string\<close> is a \<open>string\<close>, a \<open>std::vector\<close> a list.  Console output and
  sounds have no effect on the state and are left out.
\<close>

record DailyGoals =
  calories :: int
  carbs :: int
  protein :: int
  fat :: int

record Food =
  name :: string
  calories :: int
  carbs :: int
  protein :: int
  fat :: int
  grams :: int

record DailyRecord =
  date :: string
  foods :: "Food list"

record DataManager =
  dailyGoals :: DailyGoals
  records :: "DailyRecord list"
  firstRun :: bool

datatype UIState = STATE_MAIN_MENU | STATE_CALENDAR

record UIManager =
  dataManager :: DataManager
  currentState :: UIState
  currentDate :: string
  selectedIndex :: int
  foodScrollOffset :: int
  selectedCalendarDay :: int
  calendarOriginalDate :: string

definition CONSOLE_WIDTH :: int where
  "CONSOLE_WIDTH = 80"

definition CONSOLE_HEIGHT :: int where
  "CONSOLE_HEIGHT = 24"

definition maxNameLen :: nat where
  "maxNameLen = 21"

definition menuItems :: "string list" where
  "menuItems = [''Add from templates'', ''Add custom food'', ''Calendar'', ''Reset goals'']"

subsection \<open>The C runtime's date functions\<close>

text \<open>
  \<open>sscanf_s\<close>, \<open>sprintf_s\<close>, \<open>mktime\<close> and \<open>localtime_s\<close> belong to the C runtime,
  not to the repository.  The functions that call them take them as a parameter:
  \<open>sscanf_date s\<close> stands for \<open>sscanf_s(s, "%d/%d/%d", &day, &month, &year)\<close>,
  \<open>sprintf_date d m y\<close> for \<open>sprintf_s(buffer, "%02d/%02d/%04d", d, m, y)\<close>,
  \<open>mktime t\<close> returns the normalised structure together with the \<open>time_t\<close> value.
\<close>

record tm =
  tm_mday :: int
  tm_mon :: int
  tm_year :: int
  tm_wday :: int

record clib =
  sscanf_date :: "string \<Rightarrow> int \<times> int \<times> int"
  sprintf_date :: "int \<Rightarrow> int \<Rightarrow> int \<Rightarrow> string"
  mktime :: "tm \<Rightarrow> tm \<times> int"
  localtime_s :: "int \<Rightarrow> tm"

section \<open>The C++ runtime's conversions\<close>

definition INT_MAX :: int where
  "INT_MAX = 2147483647"

definition INT_MIN :: int where
  "INT_MIN = - 2147483648"

definition isspace :: "char \<Rightarrow> bool" where
  "isspace c \<longleftrightarrow> c = CHR '' '' \<or> (9 \<le> (of_char c :: nat) \<and> (of_char c :: nat) \<le> 13)"

definition isdigit :: "char \<Rightarrow> bool" where
  "isdigit c \<longleftrightarrow> 48 \<le> (of_char c :: nat) \<and> (of_char c :: nat) \<le> 57"

text \<open>The value of a run of decimal digits, read from the left.\<close>

definition digits_value :: "string \<Rightarrow> nat" where
  "digits_value ds = foldl (\<lambda>acc c. 10 * acc + ((of_char c :: nat) - 48)) 0 ds"

text \<open>
  An optional sign and the longest run of digits after it, as \<open>strtol\<close> in base 10
  and \<open>num_get\<close> read them: \<open>None\<close> when there is no digit, else the value.
\<close>

definition signed_digits :: "string \<Rightarrow> int option" where
  "signed_digits s =
     (let negative = (s \<noteq> [] \<and> hd s = CHR ''-'');
          s1 = (if s \<noteq> [] \<and> (hd s = CHR ''-'' \<or> hd s = CHR ''+'') then tl s else s);
          ds = takeWhile isdigit s1
      in if ds = [] then None
         else Some (if negative then - int (digits_value ds) else int (digits_value ds)))"

datatype exn = invalid_argument | out_of_range

text \<open>
  \<open>std::stoi(str)\<close>: leading white space is skipped, characters after the number are
  ignored; no digit throws \<open>std::invalid_argument\<close>, a value outside \<open>int\<close> throws
  \<open>std::out_of_range\<close>.
\<close>

definition stoi :: "string \<Rightarrow> exn + int" where
  "stoi str =
     (case signed_digits (dropWhile isspace str) of
        None \<Rightarrow> Inl invalid_argument
      | Some v \<Rightarrow> if v < INT_MIN \<or> INT_MAX < v then Inl out_of_range else Inr v)"

text \<open>
  An input stream is the characters still to be read, or \<open>None\<close> once the stream is
  no longer good (end of input reached, or a failed read): every later read is then
  refused and leaves its target as it was.
\<close>

type_synonym istream = "string option"

text \<open>
  \<open>std::getline(is, token, delim)\<close>: the token read, if any, and the stream after
  the read.  The delimiter is consumed; reading up to the end of the input succeeds
  when there was at least one character.
\<close>

definition getline :: "istream \<Rightarrow> char \<Rightarrow> string option \<times> istream" where
  "getline is delim =
     (case is of
        None \<Rightarrow> (None, None)
      | Some [] \<Rightarrow> (None, None)
      | Some s \<Rightarrow>
          (case dropWhile (\<lambda>c. c \<noteq> delim) s of
             [] \<Rightarrow> (Some s, None)
           | _ # rest \<Rightarrow> (Some (takeWhile (\<lambda>c. c \<noteq> delim) s), Some rest)))"

text \<open>
  \<open>is >> x\<close> for an \<open>int\<close> with current value \<open>x\<close>: white space is skipped; when the
  input ends there, \<open>x\<close> is left alone; no digit stores 0, a value outside \<open>int\<close>
  stores the nearest bound, and both leave the stream failed.
\<close>

definition extract_int :: "istream \<Rightarrow> int \<Rightarrow> int \<times> istream" where
  "extract_int is x =
     (case is of
        None \<Rightarrow> (x, None)
      | Some s \<Rightarrow>
          (let s1 = dropWhile isspace s
           in if s1 = [] then (x, None)
              else case signed_digits s1 of
                     None \<Rightarrow> (0, None)
                   | Some v \<Rightarrow>
                       if INT_MAX < v then (INT_MAX, None)
                       else if v < INT_MIN then (INT_MIN, None)
                       else (v, Some (dropWhile isdigit
                               (if hd s1 = CHR ''-'' \<or> hd s1 = CHR ''+'' then tl s1 else s1)))))"

text \<open>\<open>os << n\<close> and \<open>std::to_string(n)\<close> for an \<open>int\<close>: the decimal digits.\<close>

fun show_nat :: "nat \<Rightarrow> string" where
  "show_nat n =
     (if n < 10 then [char_of (48 + n)]
      else show_nat (n div 10) @ [char_of (48 + n mod 10)])"

declare show_nat.simps [simp del]

definition to_string :: "int \<Rightarrow> string" where
  "to_string n = (if n < 0 then CHR ''-'' # show_nat (nat (- n)) else show_nat (nat n))"

text \<open>
  The lines that the loop \<open>while (std::getline(inFile, line))\<close> reads from a file
  with the given content; \<open>cur\<close> is the part of the line read so far.
\<close>

fun read_lines :: "string \<Rightarrow> string \<Rightarrow> string list" where
  "read_lines cur [] = (if cur = [] then [] else [cur])"
| "read_lines cur (c # cs) =
     (if c = CHR 0x0A then cur # read_lines [] cs else read_lines (cur @ [c]) cs)"

text \<open>\<open>line.find(label) == 0\<close>\<close>

definition starts_with :: "string \<Rightarrow> string \<Rightarrow> bool" where
  "starts_with line label \<longleftrightarrow> take (length label) line = label"

section \<open>DataManager (data_manager.cpp, in src/constants.h)\<close>

definition DataManager_new :: DataManager where
  "DataManager_new =
     \<lparr>dailyGoals = \<lparr>DailyGoals.calories = 2000, carbs = 250, protein = 150, fat = 70\<rparr>,
      records = [], firstRun = False\<rparr>"

definition setDailyGoals :: "DailyGoals \<Rightarrow> DataManager \<Rightarrow> DataManager" where
  "setDailyGoals goals dm = dm\<lparr>dailyGoals := goals\<rparr>"

text \<open>The loop of \<open>getRecord\<close>: the position of the first record with the date.\<close>

fun find_record :: "string \<Rightarrow> DailyRecord list \<Rightarrow> nat option" where
  "find_record d [] = None"
| "find_record d (r # rs) =
     (if date r = d then Some 0 else map_option Suc (find_record d rs))"

text \<open>
  \<open>getRecord\<close> returns a reference into \<open>records\<close>; the model returns the position
  of the record and the manager, which has a new empty record at the end when the
  date was absent.
\<close>

definition getRecord :: "string \<Rightarrow> DataManager \<Rightarrow> nat \<times> DataManager" where
  "getRecord d dm =
     (case find_record d (records dm) of
        Some i \<Rightarrow> (i, dm)
      | None \<Rightarrow> (length (records dm),
                 dm\<lparr>records := records dm @ [\<lparr>date = d, foods = []\<rparr>]\<rparr>))"

text \<open>\<open>Food()\<close>, the default constructor.\<close>

definition Food_new :: Food where
  "Food_new = \<lparr>name = [], calories = 0, carbs = 0, protein = 0, fat = 0, grams = 0\<rparr>"

text \<open>
  One numeric field of a \<open>FOOD:\<close> line: when \<open>std::getline\<close> yields a token,
  \<open>std::stoi\<close> converts it and the field is set; an exception of \<open>std::stoi\<close>
  leaves the function, since \<open>loadData\<close> has no handler.
\<close>

definition loadData_field ::
    "(int \<Rightarrow> Food \<Rightarrow> Food) \<Rightarrow> Food \<times> istream \<Rightarrow> exn + Food \<times> istream" where
  "loadData_field set_field st =
     (case st of (food, iss) \<Rightarrow>
        (case getline iss (CHR ''|'') of
           (None, iss') \<Rightarrow> Inr (food, iss')
         | (Some token, iss') \<Rightarrow>
             (case stoi token of
                Inl e \<Rightarrow> Inl e
              | Inr v \<Rightarrow> Inr (set_field v food, iss'))))"

definition and_then :: "exn + 'a \<Rightarrow> ('a \<Rightarrow> exn + 'b) \<Rightarrow> exn + 'b" where
  "and_then r f = (case r of Inl e \<Rightarrow> Inl e | Inr x \<Rightarrow> f x)"

text \<open>The body of the \<open>FOOD:\<close> branch: the food that is pushed to the current record.\<close>

definition loadData_food :: "string \<Rightarrow> exn + Food" where
  "loadData_food line =
     (let foodStr = drop 5 line;
          st0 = (case getline (Some foodStr) (CHR ''|'') of
                   (None, iss) \<Rightarrow> (Food_new, iss)
                 | (Some token, iss) \<Rightarrow> (Food_new\<lparr>name := token\<rparr>, iss))
      in and_then (loadData_field (\<lambda>v food. food\<lparr>calories := v\<rparr>) st0) (\<lambda>st1.
         and_then (loadData_field (\<lambda>v food. food\<lparr>carbs := v\<rparr>) st1) (\<lambda>st2.
         and_then (loadData_field (\<lambda>v food. food\<lparr>protein := v\<rparr>) st2) (\<lambda>st3.
         and_then (loadData_field (\<lambda>v food. food\<lparr>fat := v\<rparr>) st3) (\<lambda>st4.
         and_then (loadData_field (\<lambda>v food. food\<lparr>grams := v\<rparr>) st4) (\<lambda>st5.
         Inr (fst st5)))))))"

text \<open>The \<open>DAILY_GOALS:\<close> branch.\<close>

definition loadData_goals :: "string \<Rightarrow> DailyGoals \<Rightarrow> DailyGoals" where
  "loadData_goals line goals =
     (let goalsStr = map (\<lambda>c. if c = CHR '','' then CHR '' '' else c) (drop 12 line);
          (v1, iss1) = extract_int (Some goalsStr) (DailyGoals.calories goals);
          (v2, iss2) = extract_int iss1 (DailyGoals.carbs goals);
          (v3, iss3) = extract_int iss2 (DailyGoals.protein goals);
          (v4, iss4) = extract_int iss3 (DailyGoals.fat goals)
      in \<lparr>DailyGoals.calories = v1, carbs = v2, protein = v3, fat = v4\<rparr>)"

text \<open>
  One iteration of the loop of \<open>loadData\<close>; \<open>currentRecord\<close> is the pointer to the
  record of the last \<open>DATE:\<close> line, \<open>None\<close> for the null pointer.
\<close>

definition loadData_line ::
    "string \<Rightarrow> DataManager \<times> nat option \<Rightarrow> exn + DataManager \<times> nat option" where
  "loadData_line line st =
     (case st of (dm, currentRecord) \<Rightarrow>
        if starts_with line ''DAILY_GOALS:''
        then Inr (dm\<lparr>dailyGoals := loadData_goals line (dailyGoals dm)\<rparr>, currentRecord)
        else if starts_with line ''DATE:''
        then (let dateStr = dropWhile (\<lambda>c. c = CHR '' '' \<or> c = CHR 0x09) (drop 5 line)
              in case getRecord dateStr dm of (ri, dm') \<Rightarrow> Inr (dm', Some ri))
        else if starts_with line ''FOOD:''
        then (case currentRecord of
                None \<Rightarrow> Inr (dm, currentRecord)
              | Some ri \<Rightarrow>
                  (case loadData_food line of
                     Inl e \<Rightarrow> Inl e
                   | Inr food \<Rightarrow>
                       Inr (dm\<lparr>records := (records dm)
                                 [ri := (records dm ! ri)\<lparr>foods := foods (records dm ! ri) @ [food]\<rparr>]\<rparr>,
                            currentRecord)))
        else Inr (dm, currentRecord))"

fun loadData_loop ::
    "string list \<Rightarrow> DataManager \<times> nat option \<Rightarrow> exn + DataManager \<times> nat option" where
  "loadData_loop [] st = Inr st"
| "loadData_loop (line # rest) st =
     (case loadData_line line st of
        Inl e \<Rightarrow> Inl e
      | Inr st' \<Rightarrow> loadData_loop rest st')"

text \<open>
  \<open>loadData\<close>: the argument is the content of the data file, \<open>None\<close> when the file
  cannot be opened; the result is the return value with the manager, or the
  exception that leaves the function.
\<close>

definition loadData :: "string option \<Rightarrow> DataManager \<Rightarrow> exn + bool \<times> DataManager" where
  "loadData file dm =
     (case file of
        None \<Rightarrow> Inr (False, dm\<lparr>firstRun := True\<rparr>)
      | Some content \<Rightarrow>
          (case loadData_loop (read_lines [] content) (dm, None) of
             Inl e \<Rightarrow> Inl e
           | Inr (dm', currentRecord) \<Rightarrow> Inr (True, dm')))"

text \<open>\<open>saveData\<close>: the content written to the data file when it can be opened.\<close>

definition saveData_food :: "Food \<Rightarrow> string" where
  "saveData_food food =
     ''FOOD: '' @ name food @ ''|'' @ to_string (calories food) @ ''|''
       @ to_string (carbs food) @ ''|'' @ to_string (protein food) @ ''|''
       @ to_string (fat food) @ ''|'' @ to_string (grams food) @ [CHR 0x0A]"

definition saveData_record :: "DailyRecord \<Rightarrow> string" where
  "saveData_record record =
     ''DATE: '' @ date record @ [CHR 0x0A] @ concat (map saveData_food (foods record))"

definition saveData :: "DataManager \<Rightarrow> string" where
  "saveData dm =
     ''DAILY_GOALS: '' @ to_string (DailyGoals.calories (dailyGoals dm)) @ '',''
       @ to_string (DailyGoals.carbs (dailyGoals dm)) @ '',''
       @ to_string (DailyGoals.protein (dailyGoals dm)) @ '',''
       @ to_string (DailyGoals.fat (dailyGoals dm)) @ [CHR 0x0A]
       @ concat (map saveData_record (records dm))"

text \<open>
  \<open>getRecord(date).foods.push_back(food)\<close>, the way \<open>handleAddCustomFood\<close> and
  \<open>handleAddFromTemplate\<close> add a food to a day.
\<close>

definition add_food :: "string \<Rightarrow> Food \<Rightarrow> DataManager \<Rightarrow> DataManager" where
  "add_food d food dm0 =
     (case getRecord d dm0 of (ri, dm) \<Rightarrow>
        dm\<lparr>records := (records dm)
              [ri := (records dm ! ri)\<lparr>foods := foods (records dm ! ri) @ [food]\<rparr>]\<rparr>)"

section \<open>UIManager: the main view (ui_manager.cpp, in src/main.cpp)\<close>

definition UIManager_new :: "string \<Rightarrow> DataManager \<Rightarrow> UIManager" where
  "UIManager_new today dm =
     \<lparr>dataManager = dm, currentState = STATE_MAIN_MENU, currentDate = today,
      selectedIndex = 0, foodScrollOffset = 0, selectedCalendarDay = 1,
      calendarOriginalDate = []\<rparr>"

definition changeDateByOffset :: "clib \<Rightarrow> int \<Rightarrow> UIManager \<Rightarrow> UIManager" where
  "changeDateByOffset lib offset ui =
     (case sscanf_date lib (currentDate ui) of (day, month, year) \<Rightarrow>
        let timeInfo = fst (mktime lib
              \<lparr>tm_mday = day + offset, tm_mon = month - 1, tm_year = year - 1900, tm_wday = 0\<rparr>)
        in ui\<lparr>currentDate :=
              sprintf_date lib (tm_mday timeInfo) (tm_mon timeInfo + 1) (tm_year timeInfo + 1900)\<rparr>)"

text \<open>
  The number of food rows the screen has room for, as \<open>renderMainMenu\<close> and
  \<open>processInput\<close> both compute it.
\<close>

definition visibleSlots :: int where
  "visibleSlots =
     (let borderY = 6 + int (length menuItems);
          v = CONSOLE_HEIGHT - 4 - borderY
      in if v < 0 then 0 else v)"

text \<open>
  The clamp of \<open>renderMainMenu\<close> on the scroll offset, its only effect on the
  selection state.
\<close>

definition renderMainMenu_clamp :: "int \<Rightarrow> int \<Rightarrow> UIManager \<Rightarrow> UIManager" where
  "renderMainMenu_clamp foodCount visibleFoodSlots ui =
     (if foodScrollOffset ui > foodCount - visibleFoodSlots
      then ui\<lparr>foodScrollOffset :=
             (if foodCount - visibleFoodSlots \<ge> 0 then foodCount - visibleFoodSlots else 0)\<rparr>
      else ui)"

definition renderMainMenu :: "UIManager \<Rightarrow> UIManager" where
  "renderMainMenu ui =
     (case getRecord (currentDate ui) (dataManager ui) of (ri, dm) \<Rightarrow>
        renderMainMenu_clamp (int (length (foods (records dm ! ri)))) visibleSlots
          (ui\<lparr>dataManager := dm\<rparr>))"

text \<open>The branch of \<open>processInput\<close> for the key \<open>j\<close>.\<close>

definition processInput_j :: "int \<Rightarrow> int \<Rightarrow> int \<Rightarrow> UIManager \<Rightarrow> UIManager" where
  "processInput_j menuCount foodCount visSlots ui =
     (let totalSelectable = menuCount + foodCount;
          ui1 = (if totalSelectable > 0
                 then (if selectedIndex ui < totalSelectable - 1
                       then ui\<lparr>selectedIndex := selectedIndex ui + 1\<rparr>
                       else ui\<lparr>selectedIndex := 0\<rparr>)
                 else ui);
          ui2 = (if selectedIndex ui1 \<ge> menuCount
                 then (let foodIndex = selectedIndex ui1 - menuCount
                       in if foodIndex \<ge> visSlots + foodScrollOffset ui1
                          then ui1\<lparr>foodScrollOffset := foodIndex - visSlots + 1\<rparr>
                          else ui1)
                 else ui1)
      in if selectedIndex ui2 < menuCount then ui2\<lparr>foodScrollOffset := 0\<rparr> else ui2)"

text \<open>The branch of \<open>processInput\<close> for the key \<open>k\<close>.\<close>

definition processInput_k :: "int \<Rightarrow> int \<Rightarrow> int \<Rightarrow> UIManager \<Rightarrow> UIManager" where
  "processInput_k menuCount foodCount visSlots ui =
     (let totalSelectable = menuCount + foodCount;
          ui1 = (if totalSelectable > 0
                 then (if selectedIndex ui > 0
                       then ui\<lparr>selectedIndex := selectedIndex ui - 1\<rparr>
                       else ui\<lparr>selectedIndex := totalSelectable - 1\<rparr>)
                 else ui);
          ui2 = (if selectedIndex ui1 \<ge> menuCount
                 then (let foodIndex = selectedIndex ui1 - menuCount;
                           ui1a = (if foodIndex < foodScrollOffset ui1
                                   then ui1\<lparr>foodScrollOffset := foodIndex\<rparr> else ui1)
                       in if selectedIndex ui1a = totalSelectable - 1
                          then (if foodCount > visSlots
                                then ui1a\<lparr>foodScrollOffset := foodCount - visSlots\<rparr>
                                else ui1a\<lparr>foodScrollOffset := 0\<rparr>)
                          else ui1a)
                 else ui1)
      in if selectedIndex ui2 < menuCount then ui2\<lparr>foodScrollOffset := 0\<rparr> else ui2)"

text \<open>\<open>v.erase(v.begin() + i)\<close> for an index inside the vector.\<close>

definition erase :: "nat \<Rightarrow> 'a list \<Rightarrow> 'a list" where
  "erase i xs = take i xs @ drop (Suc i) xs"

text \<open>
  What \<open>processInput\<close> asks for besides changing the state: a dialog that reads
  further input, a write of the data file, or the end of the process.
\<close>

datatype call =
    NoCall
  | Call_handleAddFromTemplate
  | Call_handleAddCustomFood
  | Call_handleResetGoals
  | Call_handleEditFood int
  | Call_saveData
  | Call_exit

text \<open>The branch of \<open>processInput\<close> for the key \<open>x\<close>; \<open>ri\<close> is the current record.\<close>

definition processInput_x :: "int \<Rightarrow> nat \<Rightarrow> UIManager \<Rightarrow> UIManager \<times> call" where
  "processInput_x menuCount ri ui =
     (let dm = dataManager ui;
          record = records dm ! ri;
          foodCount = int (length (foods record))
      in if selectedIndex ui \<ge> menuCount
         then (let foodIndex = selectedIndex ui - menuCount
               in if foodIndex \<ge> 0 \<and> foodIndex < foodCount
                  then (let foods' = erase (nat foodIndex) (foods record);
                            dm' = dm\<lparr>records := (records dm)[ri := record\<lparr>foods := foods'\<rparr>]\<rparr>;
                            ui1 = ui\<lparr>dataManager := dm'\<rparr>;
                            ui2 = (if selectedIndex ui1 \<ge> menuCount + int (length foods')
                                   then ui1\<lparr>selectedIndex := menuCount + int (length foods') - 1\<rparr>
                                   else ui1)
                        in (ui2, Call_saveData))
                  else (ui, NoCall))
         else (ui, NoCall))"

text \<open>The branch of \<open>processInput\<close> for the return key.\<close>

definition processInput_enter :: "int \<Rightarrow> int \<Rightarrow> UIManager \<Rightarrow> UIManager \<times> call" where
  "processInput_enter menuCount foodCount ui =
     (if selectedIndex ui < menuCount
      then (if selectedIndex ui = 0 then (ui, Call_handleAddFromTemplate)
            else if selectedIndex ui = 1 then (ui, Call_handleAddCustomFood)
            else if selectedIndex ui = 2
            then (ui\<lparr>calendarOriginalDate := currentDate ui,
                     currentState := STATE_CALENDAR,
                     selectedCalendarDay := 1\<rparr>, NoCall)
            else if selectedIndex ui = 3 then (ui, Call_handleResetGoals)
            else (ui, NoCall))
      else (let foodIndex = selectedIndex ui - menuCount
            in if foodIndex \<ge> 0 \<and> foodIndex < foodCount
               then (ui, Call_handleEditFood foodIndex)
               else (ui, NoCall)))"

definition processInput :: "clib \<Rightarrow> char \<Rightarrow> UIManager \<Rightarrow> UIManager \<times> call" where
  "processInput lib key ui0 =
     (let menuCount = int (length menuItems) in
      case getRecord (currentDate ui0) (dataManager ui0) of (ri, dm) \<Rightarrow>
        let ui = ui0\<lparr>dataManager := dm\<rparr>;
            foodCount = int (length (foods (records dm ! ri)))
        in if currentState ui = STATE_MAIN_MENU
           then (if key = CHR ''j'' then (processInput_j menuCount foodCount visibleSlots ui, NoCall)
                 else if key = CHR ''k''
                 then (processInput_k menuCount foodCount visibleSlots ui, NoCall)
                 else if key = CHR 0x0D then processInput_enter menuCount foodCount ui
                 else if key = CHR ''x'' then processInput_x menuCount ri ui
                 else if key = CHR ''h''
                 then ((changeDateByOffset lib (- 1) ui)
                         \<lparr>selectedIndex := 0, foodScrollOffset := 0\<rparr>, NoCall)
                 else if key = CHR ''l''
                 then ((changeDateByOffset lib 1 ui)
                         \<lparr>selectedIndex := 0, foodScrollOffset := 0\<rparr>, NoCall)
                 else if key = CHR ''q'' then (ui, Call_exit)
                 else (ui, NoCall))
           else (ui, NoCall))"

text \<open>The foods of the day on screen, which \<open>getRecord\<close> creates empty when absent.\<close>

definition currentFoods :: "UIManager \<Rightarrow> Food list" where
  "currentFoods ui =
     (case getRecord (currentDate ui) (dataManager ui) of (ri, dm) \<Rightarrow> foods (records dm ! ri))"

text \<open>
  A sequence of \<open>j\<close> and \<open>k\<close> keys, each after a rendering of the screen, as the
  loop of \<open>run\<close> alternates them, for any number of menu items, of foods and of
  visible rows.
\<close>

fun navigate :: "int \<Rightarrow> int \<Rightarrow> int \<Rightarrow> char list \<Rightarrow> UIManager \<Rightarrow> UIManager" where
  "navigate menuCount foodCount visSlots [] ui = ui"
| "navigate menuCount foodCount visSlots (key # keys) ui =
     navigate menuCount foodCount visSlots keys
       (let ui' = renderMainMenu_clamp foodCount visSlots ui
        in if key = CHR ''j'' then processInput_j menuCount foodCount visSlots ui'
           else if key = CHR ''k'' then processInput_k menuCount foodCount visSlots ui'
           else ui')"

text \<open>
  One iteration of the loop of \<open>run\<close> in the main view, and the loop on a list of
  keys; a dialog that \<open>processInput\<close> asks for is not entered.
\<close>

definition run_main_menu :: "clib \<Rightarrow> char \<Rightarrow> UIManager \<Rightarrow> UIManager" where
  "run_main_menu lib key ui = fst (processInput lib key (renderMainMenu ui))"

fun run_keys :: "clib \<Rightarrow> char list \<Rightarrow> UIManager \<Rightarrow> UIManager" where
  "run_keys lib [] ui = ui"
| "run_keys lib (key # keys) ui = run_keys lib keys (run_main_menu lib key ui)"

section \<open>UIManager: the dialogs (ui_manager.cpp, in src/main.cpp)\<close>

text \<open>
  Each dialog is a loop that draws the fields, reads one key with \<open>_getch\<close> and acts
  on it.  The model of a dialog is the body of its loop as a function of the key and
  of the line that \<open>std::getline(std::cin, input)\<close> yields should the body read one;
  the result says whether the loop goes on.
\<close>

datatype form_status = Editing | Committed | Cancelled

record form_base =
  localSelection :: int

text \<open>
  The locals \<open>foodName\<close>, \<open>calories\<close>, \<open>carbs\<close>, \<open>protein\<close>, \<open>fat\<close> and \<open>grams\<close> of
  \<open>handleEditFood\<close> and \<open>handleAddCustomFood\<close> are kept as the fields of a \<open>Food\<close>.
\<close>

record FoodForm = form_base +
  held :: Food

text \<open>The array \<open>fieldValues[4]\<close> of \<open>handleStartGoals\<close> and \<open>handleResetGoals\<close>.\<close>

record GoalsForm = form_base +
  fieldValues :: "int list"

text \<open>
  The locals \<open>tplName\<close>, \<open>cal\<close>, \<open>carbs\<close>, \<open>prot\<close> and \<open>fat\<close> of the template
  creation dialog inside \<open>handleAddFromTemplate\<close>, kept as a \<open>Food\<close> with 0 grams,
  the template that the \<open>[Add]\<close> button builds from them.
\<close>

record TemplateForm =
  editSelection :: int
  tpl :: Food

text \<open>The \<open>switch\<close> of \<open>handleEditFood\<close> and \<open>handleAddCustomFood\<close> on the field.\<close>

definition assign_food_field :: "int \<Rightarrow> int \<Rightarrow> Food \<Rightarrow> Food" where
  "assign_food_field sel v f =
     (if sel = 1 then f\<lparr>calories := v\<rparr>
      else if sel = 2 then f\<lparr>carbs := v\<rparr>
      else if sel = 3 then f\<lparr>protein := v\<rparr>
      else if sel = 4 then f\<lparr>fat := v\<rparr>
      else if sel = 5 then f\<lparr>grams := v\<rparr>
      else f)"

text \<open>The \<open>switch\<close> of the template creation dialog, which has no grams field.\<close>

definition assign_template_field :: "int \<Rightarrow> int \<Rightarrow> Food \<Rightarrow> Food" where
  "assign_template_field sel v f =
     (if sel = 1 then f\<lparr>calories := v\<rparr>
      else if sel = 2 then f\<lparr>carbs := v\<rparr>
      else if sel = 3 then f\<lparr>protein := v\<rparr>
      else if sel = 4 then f\<lparr>fat := v\<rparr>
      else f)"

subsection \<open>handleEditFood\<close>

definition handleEditFood_init :: "Food \<Rightarrow> FoodForm" where
  "handleEditFood_init foodToEdit = \<lparr>localSelection = 0, held = foodToEdit\<rparr>"

definition handleEditFood_key :: "char \<Rightarrow> string \<Rightarrow> FoodForm \<Rightarrow> FoodForm \<times> form_status" where
  "handleEditFood_key key input form =
     (if key = CHR ''j''
      then (let s = localSelection form + 1
            in (form\<lparr>localSelection := (if s > 6 then 0 else s)\<rparr>, Editing))
      else if key = CHR ''k''
      then (let s = localSelection form - 1
            in (form\<lparr>localSelection := (if s < 0 then 6 else s)\<rparr>, Editing))
      else if key = CHR 0x0D
      then (if localSelection form \<ge> 0 \<and> localSelection form < 6
            then (if input \<noteq> []
                  then (if localSelection form = 0
                        then (if length input > maxNameLen
                              then (form\<lparr>held := (held form)\<lparr>name := take maxNameLen input\<rparr>\<rparr>, Editing)
                              else (form\<lparr>held := (held form)\<lparr>name := input\<rparr>\<rparr>, Editing))
                        else (case stoi input of
                                Inr v \<Rightarrow>
                                  (form\<lparr>held := assign_food_field (localSelection form) v (held form)\<rparr>,
                                   Editing)
                              | Inl e \<Rightarrow> (form, Editing)))
                  else (form, Editing))
            else if localSelection form = 6 then (form, Committed)
            else (form, Editing))
      else if key = CHR ''q'' then (form, Cancelled)
      else (form, Editing))"

text \<open>The food that the \<open>[Update]\<close> button writes over the edited entry.\<close>

definition handleEditFood_commit :: "FoodForm \<Rightarrow> Food" where
  "handleEditFood_commit form =
     (held form)\<lparr>name := (if name (held form) = [] then ''<empty>'' else name (held form))\<rparr>"

subsection \<open>handleAddCustomFood\<close>

definition handleAddCustomFood_init :: FoodForm where
  "handleAddCustomFood_init =
     \<lparr>localSelection = 0,
      held = \<lparr>name = [], calories = - 1, carbs = - 1, protein = - 1, fat = - 1, grams = - 1\<rparr>\<rparr>"

definition handleAddCustomFood_key ::
    "char \<Rightarrow> string \<Rightarrow> FoodForm \<Rightarrow> FoodForm \<times> form_status" where
  "handleAddCustomFood_key key input form =
     (if key = CHR ''j''
      then (let s = localSelection form + 1
            in (form\<lparr>localSelection := (if s > 6 then 0 else s)\<rparr>, Editing))
      else if key = CHR ''k''
      then (let s = localSelection form - 1
            in (form\<lparr>localSelection := (if s < 0 then 6 else s)\<rparr>, Editing))
      else if key = CHR 0x0D
      then (if localSelection form \<ge> 0 \<and> localSelection form < 6
            then (if input \<noteq> []
                  then (if localSelection form = 0
                        then (if length input > maxNameLen
                              then (form\<lparr>held := (held form)\<lparr>name := take maxNameLen input\<rparr>\<rparr>, Editing)
                              else (form\<lparr>held := (held form)\<lparr>name := input\<rparr>\<rparr>, Editing))
                        else (case stoi input of
                                Inr v \<Rightarrow>
                                  (form\<lparr>held := assign_food_field (localSelection form) v (held form)\<rparr>,
                                   Editing)
                              | Inl e \<Rightarrow> (form, Editing)))
                  else (form, Editing))
            else if localSelection form = 6 then (form, Committed)
            else (form, Editing))
      else if key = CHR ''q'' then (form, Cancelled)
      else (form, Editing))"

text \<open>The food that the \<open>[Add]\<close> button pushes to the record of the day.\<close>

definition handleAddCustomFood_commit :: "FoodForm \<Rightarrow> Food" where
  "handleAddCustomFood_commit form =
     (let f = held form
      in \<lparr>name = (if name f = [] then ''<empty>'' else name f),
          calories = (if calories f = - 1 then 0 else calories f),
          carbs = (if carbs f = - 1 then 0 else carbs f),
          protein = (if protein f = - 1 then 0 else protein f),
          fat = (if fat f = - 1 then 0 else fat f),
          grams = (if grams f = - 1 then 0 else grams f)\<rparr>)"

definition handleAddCustomFood_add :: "FoodForm \<Rightarrow> UIManager \<Rightarrow> UIManager \<times> call" where
  "handleAddCustomFood_add form ui =
     (ui\<lparr>dataManager :=
          add_food (currentDate ui) (handleAddCustomFood_commit form) (dataManager ui)\<rparr>,
      Call_saveData)"

subsection \<open>handleStartGoals and handleResetGoals\<close>

definition handleStartGoals_init :: GoalsForm where
  "handleStartGoals_init = \<lparr>localSelection = 0, fieldValues = [0, 0, 0, 0]\<rparr>"

definition handleStartGoals_key ::
    "char \<Rightarrow> string \<Rightarrow> GoalsForm \<Rightarrow> GoalsForm \<times> form_status" where
  "handleStartGoals_key key input form =
     (if key = CHR ''j''
      then (let s = localSelection form + 1
            in (form\<lparr>localSelection := (if s > 4 then 0 else s)\<rparr>, Editing))
      else if key = CHR ''k''
      then (let s = localSelection form - 1
            in (form\<lparr>localSelection := (if s < 0 then 4 else s)\<rparr>, Editing))
      else if key = CHR 0x0D
      then (if localSelection form < 4
            then (if input \<noteq> []
                  then (case stoi input of
                          Inr v \<Rightarrow>
                            (form\<lparr>fieldValues := (fieldValues form)[nat (localSelection form) := v]\<rparr>,
                             Editing)
                        | Inl e \<Rightarrow>
                            (form\<lparr>fieldValues := (fieldValues form)[nat (localSelection form) := 0]\<rparr>,
                             Editing))
                  else (form\<lparr>fieldValues := (fieldValues form)[nat (localSelection form) := 0]\<rparr>,
                        Editing))
            else (form, Committed))
      else if key = CHR ''q'' then (form, Cancelled)
      else (form, Editing))"

definition handleResetGoals_init :: "DailyGoals \<Rightarrow> GoalsForm" where
  "handleResetGoals_init currentGoals =
     \<lparr>localSelection = 0,
      fieldValues = [DailyGoals.calories currentGoals, DailyGoals.carbs currentGoals,
                     DailyGoals.protein currentGoals, DailyGoals.fat currentGoals]\<rparr>"

definition handleResetGoals_key ::
    "char \<Rightarrow> string \<Rightarrow> GoalsForm \<Rightarrow> GoalsForm \<times> form_status" where
  "handleResetGoals_key key input form =
     (if key = CHR ''j''
      then (let s = localSelection form + 1
            in (form\<lparr>localSelection := (if s > 4 then 0 else s)\<rparr>, Editing))
      else if key = CHR ''k''
      then (let s = localSelection form - 1
            in (form\<lparr>localSelection := (if s < 0 then 4 else s)\<rparr>, Editing))
      else if key = CHR 0x0D
      then (if localSelection form < 4
            then (if input \<noteq> []
                  then (case stoi input of
                          Inr v \<Rightarrow>
                            (form\<lparr>fieldValues := (fieldValues form)[nat (localSelection form) := v]\<rparr>,
                             Editing)
                        | Inl e \<Rightarrow> (form, Editing))
                  else (form, Editing))
            else (form, Committed))
      else if key = CHR ''q'' then (form, Cancelled)
      else (form, Editing))"

text \<open>The goals that the last button of both dialogs passes to \<open>setDailyGoals\<close>.\<close>

definition goals_commit :: "GoalsForm \<Rightarrow> DailyGoals" where
  "goals_commit form =
     \<lparr>DailyGoals.calories = fieldValues form ! 0, carbs = fieldValues form ! 1,
      protein = fieldValues form ! 2, fat = fieldValues form ! 3\<rparr>"

subsection \<open>handleAddFromTemplate: creating a template\<close>

definition createTemplate_init :: TemplateForm where
  "createTemplate_init =
     \<lparr>editSelection = 0,
      tpl = \<lparr>name = [], calories = 0, carbs = 0, protein = 0, fat = 0, grams = 0\<rparr>\<rparr>"

definition createTemplate_key ::
    "char \<Rightarrow> string \<Rightarrow> TemplateForm \<Rightarrow> TemplateForm \<times> form_status" where
  "createTemplate_key editKey input form =
     (if editKey = CHR ''j''
      then (let s = editSelection form + 1
            in (form\<lparr>editSelection := (if s > 5 then 0 else s)\<rparr>, Editing))
      else if editKey = CHR ''k''
      then (let s = editSelection form - 1
            in (form\<lparr>editSelection := (if s < 0 then 5 else s)\<rparr>, Editing))
      else if editKey = CHR 0x0D
      then (if editSelection form < 5
            then (if editSelection form = 0
                  then (form\<lparr>tpl := (tpl form)\<lparr>name := input\<rparr>\<rparr>, Editing)
                  else (case stoi input of
                          Inr v \<Rightarrow>
                            (form\<lparr>tpl := assign_template_field (editSelection form) v (tpl form)\<rparr>,
                             Editing)
                        | Inl e \<Rightarrow> (form, Editing)))
            else (form, Committed))
      else if editKey = CHR ''q'' then (form, Cancelled)
      else (form, Editing))"

subsection \<open>handleAddFromTemplate: adding a food from a template\<close>

text \<open>
  The product of two \<open>int\<close>s in 32 bits.  A product outside the range of \<open>int\<close> is
  a signed overflow, which the C++ standard leaves undefined; the multiplication
  instruction that the compilers emit for it keeps the low 32 bits, and that is what
  the model computes.
\<close>

definition wrap_int :: "int \<Rightarrow> int" where
  "wrap_int x = (x + 2147483648) mod 4294967296 - 2147483648"

definition int_mul :: "int \<Rightarrow> int \<Rightarrow> int" where
  "int_mul a b = wrap_int (a * b)"

text \<open>
  The food built from the selected template and the grams read from \<open>std::cin\<close>;
  the division of C++ truncates towards zero.
\<close>

definition instantiateTemplate :: "Food \<Rightarrow> int \<Rightarrow> Food" where
  "instantiateTemplate selectedTemplate g =
     selectedTemplate
       \<lparr>grams := g,
        calories := int_mul (calories selectedTemplate) g sdiv 100,
        carbs := int_mul (carbs selectedTemplate) g sdiv 100,
        protein := int_mul (protein selectedTemplate) g sdiv 100,
        fat := int_mul (fat selectedTemplate) g sdiv 100\<rparr>"

text \<open>The new food is pushed to the record of the day and the data is saved.\<close>

definition handleAddFromTemplate_add :: "Food \<Rightarrow> int \<Rightarrow> UIManager \<Rightarrow> UIManager \<times> call" where
  "handleAddFromTemplate_add selectedTemplate g ui =
     (ui\<lparr>dataManager :=
          add_food (currentDate ui) (instantiateTemplate selectedTemplate g) (dataManager ui)\<rparr>,
      Call_saveData)"

section \<open>UIManager: the calendar view (ui_manager.cpp, in src/main.cpp)\<close>

text \<open>
  The head of \<open>processCalendarInput\<close>: the date on screen, the number of days of
  its month and the weekday of the 1st (0 is Sunday).
\<close>

definition calendar_month :: "clib \<Rightarrow> UIManager \<Rightarrow> (int \<times> int \<times> int) \<times> int \<times> int" where
  "calendar_month lib ui =
     (case sscanf_date lib (currentDate ui) of (day, month, year) \<Rightarrow>
        let firstDay = fst (mktime lib
              \<lparr>tm_mday = 1, tm_mon = month - 1, tm_year = year - 1900, tm_wday = 0\<rparr>);
            nextMonth = fst (mktime lib (firstDay\<lparr>tm_mon := tm_mon firstDay + 1\<rparr>));
            firstOfNextMonth = snd (mktime lib nextMonth);
            lastDayTime = firstOfNextMonth - 86400;
            lastDay = localtime_s lib lastDayTime;
            daysInMonth = tm_mday lastDay;
            startWeekday = tm_wday firstDay
        in ((day, month, year), daysInMonth, startWeekday))"

definition calendar_daysInMonth :: "clib \<Rightarrow> UIManager \<Rightarrow> int" where
  "calendar_daysInMonth lib ui = fst (snd (calendar_month lib ui))"

definition calendar_startWeekday :: "clib \<Rightarrow> UIManager \<Rightarrow> int" where
  "calendar_startWeekday lib ui = snd (snd (calendar_month lib ui))"

text \<open>The column of the selected day in the grid; \<open>%\<close> of C++ is \<open>smod\<close>.\<close>

definition calendar_col :: "clib \<Rightarrow> UIManager \<Rightarrow> int" where
  "calendar_col lib ui = (calendar_startWeekday lib ui + selectedCalendarDay ui - 1) smod 7"

definition processCalendarInput :: "clib \<Rightarrow> char \<Rightarrow> UIManager \<Rightarrow> UIManager" where
  "processCalendarInput lib key ui =
     (case calendar_month lib ui of ((day, month, year), daysInMonth, startWeekday) \<Rightarrow>
        let col = (startWeekday + selectedCalendarDay ui - 1) smod 7
        in if key = CHR ''b''
           then (let month1 = month - 1;
                     month2 = (if month1 < 1 then 12 else month1);
                     year2 = (if month1 < 1 then year - 1 else year)
                 in ui\<lparr>selectedCalendarDay := 1, currentDate := sprintf_date lib day month2 year2\<rparr>)
           else if key = CHR ''w''
           then (let month1 = month + 1;
                     month2 = (if month1 > 12 then 1 else month1);
                     year2 = (if month1 > 12 then year + 1 else year)
                 in ui\<lparr>selectedCalendarDay := 1, currentDate := sprintf_date lib day month2 year2\<rparr>)
           else if key = CHR ''q''
           then ui\<lparr>currentDate := calendarOriginalDate ui, currentState := STATE_MAIN_MENU\<rparr>
           else if key = CHR ''h''
           then (if selectedCalendarDay ui > 1 \<and> col > 0
                 then ui\<lparr>selectedCalendarDay := selectedCalendarDay ui - 1\<rparr> else ui)
           else if key = CHR ''l''
           then (if col < 6 \<and> selectedCalendarDay ui < daysInMonth
                 then ui\<lparr>selectedCalendarDay := selectedCalendarDay ui + 1\<rparr> else ui)
           else if key = CHR ''j''
           then (if selectedCalendarDay ui + 7 \<le> daysInMonth
                 then ui\<lparr>selectedCalendarDay := selectedCalendarDay ui + 7\<rparr> else ui)
           else if key = CHR ''k''
           then (if selectedCalendarDay ui - 7 \<ge> 1
                 then ui\<lparr>selectedCalendarDay := selectedCalendarDay ui - 7\<rparr> else ui)
           else if key = CHR 0x0D
           then ui\<lparr>currentDate := sprintf_date lib (selectedCalendarDay ui) month year,
                   currentState := STATE_MAIN_MENU\<rparr>
           else ui)"

text \<open>
  The loop of \<open>renderCalendar\<close> over the days: the row and the column of the cell
  it has reached after drawing \<open>n\<close> days from the given cell.
\<close>

fun renderCalendar_cell :: "nat \<Rightarrow> int \<times> int \<Rightarrow> int \<times> int" where
  "renderCalendar_cell 0 (currentRow, currentCol) = (currentRow, currentCol)"
| "renderCalendar_cell (Suc n) (currentRow, currentCol) =
     renderCalendar_cell n
       (if currentCol + 1 > 6 then (currentRow + 1, 0) else (currentRow, currentCol + 1))"

text \<open>
  The row of the grid in which \<open>renderCalendar\<close> draws the selected day, counted
  from the row of the 1st, which is drawn in the column of its weekday.
\<close>

definition calendar_row :: "clib \<Rightarrow> UIManager \<Rightarrow> int" where
  "calendar_row lib ui =
     fst (renderCalendar_cell (nat (selectedCalendarDay ui - 1)) (0, calendar_startWeekday lib ui))"

section \<open>A reference instance of the date functions\<close>

text \<open>
  The proleptic Gregorian calendar in UTC, for evaluating the functions above on
  concrete dates: day numbers count from 1 January 1970, a Thursday.
\<close>

definition days_from_civil :: "int \<Rightarrow> int \<Rightarrow> int \<Rightarrow> int" where
  "days_from_civil y m d =
     (let y1 = (if m \<le> 2 then y - 1 else y);
          era = y1 div 400;
          yoe = y1 - era * 400;
          mp = (if m > 2 then m - 3 else m + 9);
          doy = (153 * mp + 2) div 5 + d - 1;
          doe = yoe * 365 + yoe div 4 - yoe div 100 + doy
      in era * 146097 + doe - 719468)"

definition civil_from_days :: "int \<Rightarrow> int \<times> int \<times> int" where
  "civil_from_days z =
     (let z1 = z + 719468;
          era = z1 div 146097;
          doe = z1 - era * 146097;
          yoe = (doe - doe div 1460 + doe div 36524 - doe div 146096) div 365;
          doy = doe - (365 * yoe + yoe div 4 - yoe div 100);
          mp = (5 * doy + 2) div 153;
          d = doy - (153 * mp + 2) div 5 + 1;
          m = (if mp < 10 then mp + 3 else mp - 9);
          y = yoe + era * 400
      in (if m \<le> 2 then y + 1 else y, m, d))"

definition tm_of_days :: "int \<Rightarrow> tm" where
  "tm_of_days z =
     (case civil_from_days z of (y, m, d) \<Rightarrow>
        \<lparr>tm_mday = d, tm_mon = m - 1, tm_year = y - 1900, tm_wday = (z + 4) mod 7\<rparr>)"

definition gregorian_mktime :: "tm \<Rightarrow> tm \<times> int" where
  "gregorian_mktime t =
     (let y = tm_year t + 1900 + tm_mon t div 12;
          m = tm_mon t mod 12 + 1;
          z = days_from_civil y m 1 + (tm_mday t - 1)
      in (tm_of_days z, z * 86400))"

definition gregorian_localtime :: "int \<Rightarrow> tm" where
  "gregorian_localtime t = tm_of_days (t div 86400)"

definition zero_padded :: "nat \<Rightarrow> int \<Rightarrow> string" where
  "zero_padded w n =
     (if n < 0
      then CHR ''-'' # replicate (w - 1 - length (show_nat (nat (- n)))) (CHR ''0'') @ show_nat (nat (- n))
      else replicate (w - length (show_nat (nat n))) (CHR ''0'') @ show_nat (nat n))"

definition gregorian_sprintf :: "int \<Rightarrow> int \<Rightarrow> int \<Rightarrow> string" where
  "gregorian_sprintf d m y = zero_padded 2 d @ ''/'' @ zero_padded 2 m @ ''/'' @ zero_padded 4 y"

definition scan_field :: "string option \<Rightarrow> int" where
  "scan_field token =
     (case token of
        None \<Rightarrow> 0
      | Some t \<Rightarrow> (case stoi t of Inl e \<Rightarrow> 0 | Inr v \<Rightarrow> v))"

definition gregorian_sscanf :: "string \<Rightarrow> int \<times> int \<times> int" where
  "gregorian_sscanf s =
     (case getline (Some s) (CHR ''/'') of (t1, is1) \<Rightarrow>
      case getline is1 (CHR ''/'') of (t2, is2) \<Rightarrow>
      case getline is2 (CHR ''/'') of (t3, is3) \<Rightarrow>
        (scan_field t1, scan_field t2, scan_field t3))"

definition gregorian :: clib where
  "gregorian =
     \<lparr>sscanf_date = gregorian_sscanf, sprintf_date = gregorian_sprintf,
      mktime = gregorian_mktime, localtime_s = gregorian_localtime\<rparr>"

section \<open>Stores and their data files\<close>

text \<open>The lines that \<open>saveData\<close> writes, without the line ends.\<close>

definition goals_line :: "DailyGoals \<Rightarrow> string" where
  "goals_line g = ''DAILY_GOALS: '' @ to_string (DailyGoals.calories g) @ '',''
       @ to_string (DailyGoals.carbs g) @ '','' @ to_string (DailyGoals.protein g) @ '',''
       @ to_string (DailyGoals.fat g)"

definition date_line :: "DailyRecord \<Rightarrow> string" where
  "date_line r = ''DATE: '' @ date r"

definition food_line :: "Food \<Rightarrow> string" where
  "food_line f = ''FOOD: '' @ name f @ ''|'' @ to_string (calories f) @ ''|''
       @ to_string (carbs f) @ ''|'' @ to_string (protein f) @ ''|''
       @ to_string (fat f) @ ''|'' @ to_string (grams f)"

definition record_lines :: "DailyRecord \<Rightarrow> string list" where
  "record_lines r = date_line r # map food_line (foods r)"

text \<open>
  The stores that the data file can hold line by line: numbers within \<open>int\<close>, no
  line end in a date or a name, no \<open>|\<close> in a name, no blank in front of a date, and
  one record for a date.
\<close>

definition in_int :: "int \<Rightarrow> bool" where
  "in_int n \<longleftrightarrow> INT_MIN \<le> n \<and> n \<le> INT_MAX"

definition storable_food :: "Food \<Rightarrow> bool" where
  "storable_food f \<longleftrightarrow>
     CHR ''|'' \<notin> set (name f) \<and> CHR 0x0A \<notin> set (name f)
     \<and> in_int (calories f) \<and> in_int (carbs f) \<and> in_int (protein f)
     \<and> in_int (fat f) \<and> in_int (grams f)"

definition storable_record :: "DailyRecord \<Rightarrow> bool" where
  "storable_record r \<longleftrightarrow>
     CHR 0x0A \<notin> set (date r)
     \<and> dropWhile (\<lambda>c. c = CHR '' '' \<or> c = CHR 0x09) (date r) = date r
     \<and> list_all storable_food (foods r)"

definition storable :: "DataManager \<Rightarrow> bool" where
  "storable dm \<longleftrightarrow>
     in_int (DailyGoals.calories (dailyGoals dm)) \<and> in_int (DailyGoals.carbs (dailyGoals dm))
     \<and> in_int (DailyGoals.protein (dailyGoals dm)) \<and> in_int (DailyGoals.fat (dailyGoals dm))
     \<and> distinct (map date (records dm))
     \<and> list_all storable_record (records dm)"

text \<open>What \<open>loadData\<close> makes of a food and of a record that \<open>saveData\<close> wrote.\<close>

definition reload_food :: "Food \<Rightarrow> Food" where
  "reload_food f = f\<lparr>name := CHR '' '' # name f\<rparr>"

definition reload_record :: "DailyRecord \<Rightarrow> DailyRecord" where
  "reload_record r = r\<lparr>foods := map reload_food (foods r)\<rparr>"

text \<open>The text after a number does not go on with a digit.\<close>

definition ends_number :: "string \<Rightarrow> bool" where
  "ends_number rest \<longleftrightarrow> takeWhile isdigit rest = []"

section \<open>Example states\<close>

definition apple :: Food where
  "apple = \<lparr>name = ''Apple'', calories = 52, carbs = 14, protein = 0, fat = 0, grams = 100\<rparr>"

text \<open>The apple as a template: the values are per 100 grams and the grams are 0.\<close>

definition apple_template :: Food where
  "apple_template = apple\<lparr>grams := 0\<rparr>"

text \<open>The main view on a day with one food, the focus on that food.\<close>

definition day_with_food :: UIManager where
  "day_with_food =
     (UIManager_new ''02/11/2026'' (add_food ''02/11/2026'' apple DataManager_new))
       \<lparr>selectedIndex := 4\<rparr>"

text \<open>The main view on a day without foods, somewhere in the menu.\<close>

definition empty_day :: UIManager where
  "empty_day = (UIManager_new ''02/11/2026'' DataManager_new)\<lparr>selectedIndex := 2\<rparr>"

text \<open>The calendar on August 2025, whose 1st is a Friday, with the cursor on the 1st.\<close>

definition august_2025 :: UIManager where
  "august_2025 =
     (UIManager_new ''15/08/2025'' DataManager_new)
       \<lparr>currentState := STATE_CALENDAR, calendarOriginalDate := ''15/08/2025''\<rparr>"

text \<open>The goals dialogs with the default goals entered and the focus on the calories.\<close>

definition goals_entered :: GoalsForm where
  "goals_entered = \<lparr>localSelection = 0, fieldValues = [2000, 250, 150, 70]\<rparr>"

text \<open>A data file with a food line whose calories are not a number.\<close>

definition malformed_store :: string where
  "malformed_store =
     ''DATE: 01/01/2025'' @ [CHR 0x0A] @ ''FOOD: Apple|abc|10|0|0|100'' @ [CHR 0x0A]"

section \<open>Invariants of the selection state\<close>

text \<open>The focus is on one of \<open>n\<close> selectable entries.\<close>

definition selection_ok :: "int \<Rightarrow> UIManager \<Rightarrow> bool" where
  "selection_ok n ui \<longleftrightarrow> 0 \<le> selectedIndex ui \<and> selectedIndex ui < n"

text \<open>The scroll offset is within the bounds that the food list allows.\<close>

definition scroll_ok :: "int \<Rightarrow> int \<Rightarrow> UIManager \<Rightarrow> bool" where
  "scroll_ok foodCount visSlots ui \<longleftrightarrow>
     0 \<le> foodScrollOffset ui \<and> foodScrollOffset ui \<le> max 0 (foodCount - visSlots)"

section \<open>Selection in the main view\<close>

lemma selectedIndex_clamp [simp]:
  "selectedIndex (renderMainMenu_clamp foodCount visSlots ui) = selectedIndex ui"
  by (simp add: renderMainMenu_clamp_def)

lemma selectedIndex_j:
  "0 \<le> selectedIndex ui \<Longrightarrow> selectedIndex ui < menuCount + foodCount \<Longrightarrow>
   selectedIndex (processInput_j menuCount foodCount visSlots ui)
     = (if selectedIndex ui = menuCount + foodCount - 1 then 0 else selectedIndex ui + 1)"
  by (auto simp: processInput_j_def Let_def)

lemma selectedIndex_k:
  "0 \<le> selectedIndex ui \<Longrightarrow> selectedIndex ui < menuCount + foodCount \<Longrightarrow>
   selectedIndex (processInput_k menuCount foodCount visSlots ui)
     = (if selectedIndex ui = 0 then menuCount + foodCount - 1 else selectedIndex ui - 1)"
  by (auto simp: processInput_k_def Let_def)

lemma next_mod:
  "0 \<le> i \<Longrightarrow> i < n \<Longrightarrow> (if i = n - 1 then 0 else i + 1) = (i + 1) mod (n::int)"
  by (cases "i = n - 1") simp_all

lemma prev_mod:
  "0 \<le> i \<Longrightarrow> i < n \<Longrightarrow> (if i = 0 then n - 1 else i - 1) = (i - 1 + n) mod (n::int)"
proof (cases "i = 0")
  case True
  assume "i < n"
  with True show ?thesis by (simp add: zmod_minus1)
next
  case False
  assume "0 \<le> i" "i < n"
  with False have "(i - 1) mod n = i - 1" by simp
  with False show ?thesis by simp
qed

text \<open>The two moves are the ones of the specification, modulo the number of entries.\<close>

lemma selectedIndex_j_mod:
  "0 \<le> selectedIndex ui \<Longrightarrow> selectedIndex ui < menuCount + foodCount \<Longrightarrow>
   selectedIndex (processInput_j menuCount foodCount visSlots ui)
     = (selectedIndex ui + 1) mod (menuCount + foodCount)"
  using selectedIndex_j [of ui menuCount foodCount visSlots]
    next_mod [of "selectedIndex ui" "menuCount + foodCount"]
  by simp

lemma selectedIndex_k_mod:
  "0 \<le> selectedIndex ui \<Longrightarrow> selectedIndex ui < menuCount + foodCount \<Longrightarrow>
   selectedIndex (processInput_k menuCount foodCount visSlots ui)
     = (selectedIndex ui - 1 + (menuCount + foodCount)) mod (menuCount + foodCount)"
  using selectedIndex_k [of ui menuCount foodCount visSlots]
    prev_mod [of "selectedIndex ui" "menuCount + foodCount"]
  by simp

lemma selection_ok_navigate:
  "selection_ok (menuCount + foodCount) ui \<Longrightarrow>
   selection_ok (menuCount + foodCount) (navigate menuCount foodCount visSlots keys ui)"
proof (induction keys arbitrary: ui)
  case Nil
  then show ?case by simp
next
  case (Cons key keys)
  let ?c = "renderMainMenu_clamp foodCount visSlots ui"
  have c: "selection_ok (menuCount + foodCount) ?c"
    using Cons.prems by (simp add: selection_ok_def)
  then have pos: "0 < menuCount + foodCount"
    by (simp add: selection_ok_def)
  have j: "selection_ok (menuCount + foodCount) (processInput_j menuCount foodCount visSlots ?c)"
    using c pos selectedIndex_j_mod [of ?c menuCount foodCount visSlots]
    by (simp add: selection_ok_def)
  have k: "selection_ok (menuCount + foodCount) (processInput_k menuCount foodCount visSlots ?c)"
    using c pos selectedIndex_k_mod [of ?c menuCount foodCount visSlots]
    by (simp add: selection_ok_def)
  show ?case
    using Cons.IH c j k by (simp add: Let_def)
qed

lemma selectedIndex_advance_n:
  "selection_ok (menuCount + foodCount) ui \<Longrightarrow>
   selectedIndex (navigate menuCount foodCount visSlots (replicate n (CHR ''j'')) ui)
     = (selectedIndex ui + int n) mod (menuCount + foodCount)"
proof (induction n arbitrary: ui)
  case 0
  then show ?case by (simp add: selection_ok_def)
next
  case (Suc n)
  let ?c = "renderMainMenu_clamp foodCount visSlots ui"
  let ?j = "processInput_j menuCount foodCount visSlots ?c"
  have c: "selection_ok (menuCount + foodCount) ?c"
    using Suc.prems by (simp add: selection_ok_def)
  then have pos: "0 < menuCount + foodCount"
    by (simp add: selection_ok_def)
  have js: "selectedIndex ?j = (selectedIndex ui + 1) mod (menuCount + foodCount)"
    using c pos selectedIndex_j_mod [of ?c menuCount foodCount visSlots]
    by (simp add: selection_ok_def)
  then have j: "selection_ok (menuCount + foodCount) ?j"
    using pos by (simp add: selection_ok_def)
  have "selectedIndex (navigate menuCount foodCount visSlots (replicate (Suc n) (CHR ''j'')) ui)
        = (selectedIndex ?j + int n) mod (menuCount + foodCount)"
    using Suc.IH [OF j] by (simp add: Let_def)
  also have "\<dots> = (selectedIndex ui + int (Suc n)) mod (menuCount + foodCount)"
  proof -
    have "((selectedIndex ui + 1) mod (menuCount + foodCount) + int n) mod (menuCount + foodCount)
          = (selectedIndex ui + 1 + int n) mod (menuCount + foodCount)"
      by (rule mod_add_left_eq)
    then show ?thesis unfolding js by (simp add: add.assoc)
  qed
  finally show ?case .
qed

lemma renderMainMenu_clamp_fields [simp]:
  "dataManager (renderMainMenu_clamp f v ui) = dataManager ui"
  "currentDate (renderMainMenu_clamp f v ui) = currentDate ui"
  "currentState (renderMainMenu_clamp f v ui) = currentState ui"
  by (simp_all add: renderMainMenu_clamp_def)

lemma processInput_j_fields [simp]:
  "dataManager (processInput_j m f v ui) = dataManager ui"
  "currentDate (processInput_j m f v ui) = currentDate ui"
  "currentState (processInput_j m f v ui) = currentState ui"
  by (simp_all add: processInput_j_def Let_def)

lemma processInput_k_fields [simp]:
  "dataManager (processInput_k m f v ui) = dataManager ui"
  "currentDate (processInput_k m f v ui) = currentDate ui"
  "currentState (processInput_k m f v ui) = currentState ui"
  by (simp_all add: processInput_k_def Let_def)

lemma currentFoods_cong:
  "dataManager ui' = dataManager ui \<Longrightarrow> currentDate ui' = currentDate ui \<Longrightarrow>
   currentFoods ui' = currentFoods ui"
  by (simp add: currentFoods_def)

lemma dataManager_update_same: "dataManager x = d \<Longrightarrow> x\<lparr>dataManager := d\<rparr> = x"
  by (cases x) simp

text \<open>
  In the main view, on a day that has a record, the loop of \<open>run\<close> on \<open>j\<close> and \<open>k\<close>
  keys is \<open>navigate\<close> for the four menu items, the foods of the day and the rows of
  the screen.
\<close>

lemma run_main_menu_navigate:
  assumes main: "currentState ui = STATE_MAIN_MENU"
    and key: "key = CHR ''j'' \<or> key = CHR ''k''"
    and found: "find_record (currentDate ui) (records (dataManager ui)) = Some ri"
  shows "run_main_menu lib key ui
           = navigate 4 (int (length (currentFoods ui))) visibleSlots [key] ui"
proof -
  define n where "n = int (length (currentFoods ui))"
  define c where "c = renderMainMenu_clamp n visibleSlots ui"
  have g: "getRecord (currentDate ui) (dataManager ui) = (ri, dataManager ui)"
    using found by (simp add: getRecord_def)
  then have n: "int (length (foods (records (dataManager ui) ! ri))) = n"
    by (simp add: currentFoods_def n_def)
  have r: "renderMainMenu ui = c"
    using g n by (simp add: renderMainMenu_def c_def dataManager_update_same)
  have mc: "int (length menuItems) = 4"
    by (simp add: menuItems_def)
  have c: "dataManager c = dataManager ui" "currentDate c = currentDate ui"
    "currentState c = STATE_MAIN_MENU"
    using main by (simp_all add: c_def)
  have same: "c\<lparr>dataManager := dataManager ui\<rparr> = c"
    by (rule dataManager_update_same) (rule c(1))
  have p: "processInput lib key c =
      (if key = CHR ''j'' then processInput_j 4 n visibleSlots c
       else processInput_k 4 n visibleSlots c, NoCall)"
    unfolding processInput_def Let_def c g mc
    using key n same c(3) by auto
  show ?thesis
    unfolding run_main_menu_def r p using key
    by (auto simp: Let_def c_def n_def)
qed

lemma run_keys_navigate:
  assumes "currentState ui = STATE_MAIN_MENU"
    and "set keys \<subseteq> {CHR ''j'', CHR ''k''}"
    and "find_record (currentDate ui) (records (dataManager ui)) = Some ri"
  shows "run_keys lib keys ui
           = navigate 4 (int (length (currentFoods ui))) visibleSlots keys ui"
  using assms
proof (induction keys arbitrary: ui)
  case Nil
  then show ?case by simp
next
  case (Cons key keys)
  let ?n = "int (length (currentFoods ui))"
  let ?ui' = "navigate 4 ?n visibleSlots [key] ui"
  have key: "key = CHR ''j'' \<or> key = CHR ''k''"
    using Cons.prems(2) by simp
  have step: "run_main_menu lib key ui = ?ui'"
    using Cons.prems(1) key Cons.prems(3) by (rule run_main_menu_navigate)
  have fields: "dataManager ?ui' = dataManager ui" "currentDate ?ui' = currentDate ui"
    "currentState ?ui' = currentState ui"
    using key by (auto simp: Let_def)
  have foods: "currentFoods ?ui' = currentFoods ui"
    using fields by (intro currentFoods_cong)
  have "run_keys lib keys ?ui'
      = navigate 4 (int (length (currentFoods ?ui'))) visibleSlots keys ?ui'"
    using Cons.prems fields by (intro Cons.IH) simp_all
  then show ?case
    unfolding foods using step by (simp add: Let_def)
qed

text \<open>
  C4.  With at least one selectable entry and the focus on one of them, every sequence
  of \<open>j\<close> (advance) and \<open>k\<close> (retreat) keys leaves the focus on one of the entries;
  advancing from the last entry leads to the first, retreating from the first leads to
  the last, and advancing as many times as there are entries leads back to the entry
  the focus started on.
\<close>

theorem selection_wraps:
  assumes "0 \<le> selectedIndex ui" and "selectedIndex ui < menuCount + foodCount"
  shows "(0 \<le> selectedIndex (navigate menuCount foodCount visSlots keys ui)
          \<and> selectedIndex (navigate menuCount foodCount visSlots keys ui) < menuCount + foodCount)
       \<and> selectedIndex (processInput_j menuCount foodCount visSlots ui)
           = (if selectedIndex ui = menuCount + foodCount - 1 then 0 else selectedIndex ui + 1)
       \<and> selectedIndex (processInput_k menuCount foodCount visSlots ui)
           = (if selectedIndex ui = 0 then menuCount + foodCount - 1 else selectedIndex ui - 1)
       \<and> selectedIndex (navigate menuCount foodCount visSlots
             (replicate (nat (menuCount + foodCount)) (CHR ''j'')) ui) = selectedIndex ui"
proof -
  have ok: "selection_ok (menuCount + foodCount) ui"
    using assms by (simp add: selection_ok_def)
  have pos: "0 < menuCount + foodCount"
    using assms by simp
  have "selection_ok (menuCount + foodCount) (navigate menuCount foodCount visSlots keys ui)"
    using ok by (rule selection_ok_navigate)
  moreover have "selectedIndex (processInput_j menuCount foodCount visSlots ui)
           = (if selectedIndex ui = menuCount + foodCount - 1 then 0 else selectedIndex ui + 1)"
    using assms by (rule selectedIndex_j)
  moreover have "selectedIndex (processInput_k menuCount foodCount visSlots ui)
           = (if selectedIndex ui = 0 then menuCount + foodCount - 1 else selectedIndex ui - 1)"
    using assms by (rule selectedIndex_k)
  moreover have "selectedIndex (navigate menuCount foodCount visSlots
             (replicate (nat (menuCount + foodCount)) (CHR ''j'')) ui) = selectedIndex ui"
    using selectedIndex_advance_n [OF ok, of visSlots "nat (menuCount + foodCount)"] assms pos
    by simp
  ultimately show ?thesis
    by (simp add: selection_ok_def)
qed

theorem selection_wraps_witness:
  "0 \<le> selectedIndex day_with_food \<and> selectedIndex day_with_food < 4 + 1
   \<and> selectedIndex (navigate 4 1 10 ''jkkj'' day_with_food) < 5
   \<and> selectedIndex (processInput_j 4 1 10 day_with_food) = 0
   \<and> selectedIndex (navigate 4 1 10 (replicate 5 (CHR ''j'')) day_with_food) = 4"
  using selection_wraps [of day_with_food 4 1 10 "''jkkj''"]
  by (simp add: day_with_food_def UIManager_new_def)

text \<open>The same bounds for the loop of \<open>run\<close> itself.\<close>

lemma run_keys_selection_ok:
  assumes "currentState ui = STATE_MAIN_MENU"
    and "set keys \<subseteq> {CHR ''j'', CHR ''k''}"
    and "find_record (currentDate ui) (records (dataManager ui)) = Some ri"
    and "0 \<le> selectedIndex ui"
    and "selectedIndex ui < 4 + int (length (currentFoods ui))"
  shows "0 \<le> selectedIndex (run_keys lib keys ui)
       \<and> selectedIndex (run_keys lib keys ui) < 4 + int (length (currentFoods ui))"
  unfolding run_keys_navigate [OF assms(1-3)]
  using selection_ok_navigate [of 4 "int (length (currentFoods ui))" ui visibleSlots keys]
    assms(4,5)
  by (simp add: selection_ok_def)

section \<open>Scrolling in the main view\<close>

lemma scroll_ok_clamp:
  "0 \<le> foodScrollOffset ui \<Longrightarrow>
   scroll_ok foodCount visSlots (renderMainMenu_clamp foodCount visSlots ui)"
  by (auto simp: scroll_ok_def renderMainMenu_clamp_def)

lemma scroll_ok_j:
  "0 < menuCount + foodCount \<Longrightarrow> scroll_ok foodCount visSlots ui \<Longrightarrow>
   scroll_ok foodCount visSlots (processInput_j menuCount foodCount visSlots ui)"
  by (auto simp: scroll_ok_def processInput_j_def Let_def)

lemma scroll_ok_k:
  "0 < menuCount + foodCount \<Longrightarrow> scroll_ok foodCount visSlots ui \<Longrightarrow>
   scroll_ok foodCount visSlots (processInput_k menuCount foodCount visSlots ui)"
  by (auto simp: scroll_ok_def processInput_k_def Let_def)

lemma scroll_ok_navigate:
  "0 < menuCount + foodCount \<Longrightarrow> scroll_ok foodCount visSlots ui \<Longrightarrow>
   scroll_ok foodCount visSlots (navigate menuCount foodCount visSlots keys ui)"
proof (induction keys arbitrary: ui)
  case Nil
  then show ?case by simp
next
  case (Cons key keys)
  have c: "scroll_ok foodCount visSlots (renderMainMenu_clamp foodCount visSlots ui)"
    using Cons.prems(2) by (intro scroll_ok_clamp) (simp add: scroll_ok_def)
  show ?case
    using Cons.IH [OF Cons.prems(1)] c
      scroll_ok_j [OF Cons.prems(1) c] scroll_ok_k [OF Cons.prems(1) c]
    by (simp add: Let_def)
qed

text \<open>
  C5.  For every number of foods and every number of visible rows, with at least one
  selectable entry (the menu has four): after any sequence of \<open>j\<close> and \<open>k\<close> keys
  from a scroll offset of 0, the scroll offset is at least 0 and at most
  \<open>max(0, foodCount - visibleSlots)\<close>.
\<close>

theorem scroll_offset_bounded:
  assumes "0 < menuCount + foodCount" and "foodScrollOffset ui = 0"
  shows "0 \<le> foodScrollOffset (navigate menuCount foodCount visSlots keys ui)
       \<and> foodScrollOffset (navigate menuCount foodCount visSlots keys ui)
           \<le> max 0 (foodCount - visSlots)"
proof -
  have "scroll_ok foodCount visSlots ui"
    using assms(2) by (simp add: scroll_ok_def)
  then have "scroll_ok foodCount visSlots (navigate menuCount foodCount visSlots keys ui)"
    by (rule scroll_ok_navigate [OF assms(1)])
  then show ?thesis
    by (simp add: scroll_ok_def)
qed

theorem scroll_offset_bounded_witness:
  "(0::int) < 4 + 15 \<and> foodScrollOffset empty_day = 0
   \<and> 0 \<le> foodScrollOffset (navigate 4 15 10 ''kkjj'' empty_day)
   \<and> foodScrollOffset (navigate 4 15 10 ''kkjj'' empty_day) \<le> 5"
  using scroll_offset_bounded [of 4 15 empty_day 10 "''kkjj''"]
  by (simp add: empty_day_def UIManager_new_def)

lemma visibleSlots_eq: "visibleSlots = 10"
  by (simp add: visibleSlots_def menuItems_def CONSOLE_HEIGHT_def)

text \<open>The same bounds for the loop of \<open>run\<close> itself, with its ten visible rows.\<close>

lemma run_keys_scroll_ok:
  assumes "currentState ui = STATE_MAIN_MENU"
    and "set keys \<subseteq> {CHR ''j'', CHR ''k''}"
    and "find_record (currentDate ui) (records (dataManager ui)) = Some ri"
    and "foodScrollOffset ui = 0"
  shows "0 \<le> foodScrollOffset (run_keys lib keys ui)
       \<and> foodScrollOffset (run_keys lib keys ui) \<le> max 0 (int (length (currentFoods ui)) - 10)"
proof -
  have "scroll_ok (int (length (currentFoods ui))) 10 ui"
    using assms(4) by (simp add: scroll_ok_def)
  then have "scroll_ok (int (length (currentFoods ui))) 10
      (navigate 4 (int (length (currentFoods ui))) 10 keys ui)"
    by (intro scroll_ok_navigate) simp_all
  then show ?thesis
    unfolding run_keys_navigate [OF assms(1-3)] visibleSlots_eq
    by (simp add: scroll_ok_def)
qed

section \<open>Deleting a food and shifting the day\<close>

lemma find_record_Some:
  "find_record d rs = Some i \<Longrightarrow> i < length rs \<and> date (rs ! i) = d"
proof (induction rs arbitrary: i)
  case Nil
  then show ?case by simp
next
  case (Cons r rs)
  then show ?case by (cases "date r = d") auto
qed

lemma find_record_update:
  "i < length rs \<Longrightarrow> date r' = date (rs ! i) \<Longrightarrow>
   find_record d (rs[i := r']) = find_record d rs"
proof (induction rs arbitrary: i)
  case Nil
  then show ?case by simp
next
  case (Cons r rs)
  then show ?case by (cases i) auto
qed

lemma erase_last: "xs \<noteq> [] \<Longrightarrow> erase (length xs - 1) xs = butlast xs"
  by (simp add: erase_def butlast_conv_take)

lemma currentFoods_found:
  assumes "currentFoods ui \<noteq> []"
  obtains ri where "find_record (currentDate ui) (records (dataManager ui)) = Some ri"
    and "getRecord (currentDate ui) (dataManager ui) = (ri, dataManager ui)"
    and "currentFoods ui = foods (records (dataManager ui) ! ri)"
proof (cases "find_record (currentDate ui) (records (dataManager ui))")
  case None
  then have "currentFoods ui = []"
    by (simp add: currentFoods_def getRecord_def)
  with assms show ?thesis by simp
next
  case (Some ri)
  then show ?thesis
    by (intro that [of ri]) (simp_all add: currentFoods_def getRecord_def)
qed

text \<open>
  C9.  In the main view, when the day has foods and the focus is on the last of
  them, the key \<open>x\<close> removes that food and moves the focus to the new last food, or
  to the last menu item (index 3) when no food is left; the focus is then within
  \<open>[0, menuCount + foodCount)\<close> for the new number of foods.
\<close>

theorem delete_last_food_focus:
  assumes main: "currentState ui = STATE_MAIN_MENU"
    and nonempty: "currentFoods ui \<noteq> []"
    and last: "selectedIndex ui = int (length menuItems) + int (length (currentFoods ui)) - 1"
  shows "case processInput lib (CHR ''x'') ui of (ui', c) \<Rightarrow>
           currentFoods ui' = butlast (currentFoods ui)
         \<and> selectedIndex ui' = int (length menuItems) + int (length (currentFoods ui')) - 1
         \<and> (currentFoods ui' = [] \<longrightarrow> selectedIndex ui' = 3)
         \<and> 0 \<le> selectedIndex ui'
         \<and> selectedIndex ui' < int (length menuItems) + int (length (currentFoods ui'))"
proof -
  obtain ri where f: "find_record (currentDate ui) (records (dataManager ui)) = Some ri"
    and g: "getRecord (currentDate ui) (dataManager ui) = (ri, dataManager ui)"
    and c: "currentFoods ui = foods (records (dataManager ui) ! ri)"
    using nonempty by (rule currentFoods_found)
  let ?fs = "currentFoods ui"
  let ?rs = "records (dataManager ui)"
  let ?rs' = "?rs[ri := (?rs ! ri)\<lparr>foods := butlast ?fs\<rparr>]"
  let ?ui' = "ui\<lparr>dataManager := (dataManager ui)\<lparr>records := ?rs'\<rparr>,
                 selectedIndex := 4 + int (length (butlast ?fs)) - 1\<rparr>"
  have ri: "ri < length ?rs" "date (?rs ! ri) = currentDate ui"
    using find_record_Some [OF f] by simp_all
  have sel: "selectedIndex ui = 4 + int (length ?fs) - 1"
    using last by (simp add: menuItems_def)
  have bl: "int (length (butlast ?fs)) = int (length ?fs) - 1"
    using nonempty by (cases ?fs) simp_all
  have "nat (int (length ?fs) - 1) = length ?fs - 1"
    by simp
  then have er: "erase (nat (int (length ?fs) - 1)) ?fs = butlast ?fs"
    using erase_last [OF nonempty] by simp
  have x: "processInput_x 4 ri ui = (?ui', Call_saveData)"
    unfolding processInput_x_def Let_def c [symmetric]
    using nonempty sel bl er by simp
  have mc: "int (length menuItems) = 4"
    by (simp add: menuItems_def)
  have p: "processInput lib (CHR ''x'') ui = (?ui', Call_saveData)"
    unfolding processInput_def Let_def g mc using main x by simp
  have "find_record (currentDate ui) ?rs' = Some ri"
    using find_record_update [of ri ?rs "(?rs ! ri)\<lparr>foods := butlast ?fs\<rparr>" "currentDate ui"] ri f
    by simp
  then have cf: "currentFoods ?ui' = butlast ?fs"
    using ri by (simp add: currentFoods_def getRecord_def)
  have one: "butlast ?fs = [] \<longrightarrow> length ?fs = Suc 0"
    using nonempty by (cases ?fs) (simp_all split: if_splits)
  show ?thesis
    unfolding p mc using cf bl nonempty one by simp
qed

lemma currentFoods_day_with_food: "currentFoods day_with_food = [apple]"
  by (simp add: day_with_food_def currentFoods_def UIManager_new_def add_food_def
      getRecord_def DataManager_new_def)

theorem delete_last_food_focus_witness:
  "currentState day_with_food = STATE_MAIN_MENU \<and> currentFoods day_with_food \<noteq> []
   \<and> selectedIndex day_with_food = int (length menuItems) + int (length (currentFoods day_with_food)) - 1
   \<and> selectedIndex (fst (processInput gregorian (CHR ''x'') day_with_food)) = 3
   \<and> currentFoods (fst (processInput gregorian (CHR ''x'') day_with_food)) = []"
  using delete_last_food_focus [of day_with_food gregorian] currentFoods_day_with_food
  by (simp add: day_with_food_def UIManager_new_def menuItems_def split: prod.splits)

text \<open>
  C10.  In the main view, the keys \<open>h\<close> (previous day) and \<open>l\<close> (next day) set the
  focused index to 0 and the scroll offset of the food list to 0, whatever they were.
\<close>

theorem day_shift_resets_selection:
  assumes "currentState ui = STATE_MAIN_MENU" and "key = CHR ''h'' \<or> key = CHR ''l''"
  shows "selectedIndex (fst (processInput lib key ui)) = 0
       \<and> foodScrollOffset (fst (processInput lib key ui)) = 0"
proof -
  obtain ri dm where g: "getRecord (currentDate ui) (dataManager ui) = (ri, dm)"
    by (cases "getRecord (currentDate ui) (dataManager ui)")
  from assms(2) show ?thesis
  proof
    assume "key = CHR ''h''"
    then show ?thesis
      using assms(1) g by (simp add: processInput_def Let_def)
  next
    assume "key = CHR ''l''"
    then show ?thesis
      using assms(1) g by (simp add: processInput_def Let_def)
  qed
qed

theorem day_shift_resets_selection_witness:
  "currentState empty_day = STATE_MAIN_MENU
   \<and> selectedIndex empty_day = 2
   \<and> selectedIndex (fst (processInput gregorian (CHR ''h'') empty_day)) = 0
   \<and> foodScrollOffset (fst (processInput gregorian (CHR ''h'') empty_day)) = 0"
  using day_shift_resets_selection [of empty_day "CHR ''h''" gregorian]
  by (simp add: empty_day_def UIManager_new_def)

section \<open>The calendar view\<close>

lemma sdiv_nonneg: "0 \<le> a \<Longrightarrow> 0 < b \<Longrightarrow> (a::int) sdiv b = a div b"
  by (cases "a = 0") (simp_all add: signed_divide_int_def)

lemma smod_nonneg: "0 \<le> a \<Longrightarrow> 0 < b \<Longrightarrow> (a::int) smod b = a mod b"
  by (cases "a = 0") (simp_all add: signed_modulo_int_def)

lemma calendar_month_day [simp]:
  "calendar_month lib (ui\<lparr>selectedCalendarDay := d\<rparr>) = calendar_month lib ui"
  by (simp add: calendar_month_def)

lemma processCalendarInput_h:
  "processCalendarInput lib (CHR ''h'') ui =
     (if selectedCalendarDay ui > 1 \<and> calendar_col lib ui > 0
      then ui\<lparr>selectedCalendarDay := selectedCalendarDay ui - 1\<rparr> else ui)"
proof -
  obtain day month year dim sw where m: "calendar_month lib ui = ((day, month, year), dim, sw)"
    by (cases "calendar_month lib ui") auto
  show ?thesis
    by (simp add: processCalendarInput_def calendar_col_def calendar_startWeekday_def m Let_def)
qed

lemma processCalendarInput_l:
  "processCalendarInput lib (CHR ''l'') ui =
     (if calendar_col lib ui < 6 \<and> selectedCalendarDay ui < calendar_daysInMonth lib ui
      then ui\<lparr>selectedCalendarDay := selectedCalendarDay ui + 1\<rparr> else ui)"
proof -
  obtain day month year dim sw where m: "calendar_month lib ui = ((day, month, year), dim, sw)"
    by (cases "calendar_month lib ui") auto
  show ?thesis
    by (simp add: processCalendarInput_def calendar_col_def calendar_startWeekday_def
        calendar_daysInMonth_def m Let_def)
qed

lemma renderCalendar_cell_eq:
  "0 \<le> c \<Longrightarrow> c \<le> 6 \<Longrightarrow>
   renderCalendar_cell n (r, c) = (r + (c + int n) div 7, (c + int n) mod 7)"
proof (induction n arbitrary: r c)
  case 0
  then show ?case by simp
next
  case (Suc n)
  show ?case
  proof (cases "c = 6")
    case True
    have "renderCalendar_cell (Suc n) (r, c) = renderCalendar_cell n (r + 1, 0)"
      using True by simp
    also have "\<dots> = (r + 1 + (0 + int n) div 7, (0 + int n) mod 7)"
      by (rule Suc.IH) simp_all
    also have "\<dots> = (r + (c + int (Suc n)) div 7, (c + int (Suc n)) mod 7)"
      using True by simp
    finally show ?thesis .
  next
    case False
    then have c: "0 \<le> c + 1" "c + 1 \<le> 6"
      using Suc.prems by simp_all
    have "renderCalendar_cell (Suc n) (r, c) = renderCalendar_cell n (r, c + 1)"
      using False Suc.prems by simp
    also have "\<dots> = (r + (c + 1 + int n) div 7, (c + 1 + int n) mod 7)"
      by (rule Suc.IH [OF c])
    also have "\<dots> = (r + (c + int (Suc n)) div 7, (c + int (Suc n)) mod 7)"
      by (simp add: add.assoc)
    finally show ?thesis .
  qed
qed

lemma calendar_row_eq:
  assumes "0 \<le> calendar_startWeekday lib ui" and "calendar_startWeekday lib ui \<le> 6"
    and "1 \<le> selectedCalendarDay ui"
  shows "calendar_row lib ui = (calendar_startWeekday lib ui + selectedCalendarDay ui - 1) div 7"
proof -
  define n where "n = nat (selectedCalendarDay ui - 1)"
  have n: "int n = selectedCalendarDay ui - 1"
    using assms(3) by (simp add: n_def)
  have "calendar_row lib ui = (calendar_startWeekday lib ui + int n) div 7"
    using renderCalendar_cell_eq [OF assms(1,2), of n 0]
    by (simp add: calendar_row_def n_def)
  then show ?thesis
    unfolding n by (simp add: algebra_simps)
qed

text \<open>The column that the code computes is the column in which the day is drawn.\<close>

lemma calendar_col_drawn:
  assumes "0 \<le> calendar_startWeekday lib ui" and "calendar_startWeekday lib ui \<le> 6"
    and "1 \<le> selectedCalendarDay ui"
  shows "calendar_col lib ui =
     snd (renderCalendar_cell (nat (selectedCalendarDay ui - 1)) (0, calendar_startWeekday lib ui))"
proof -
  define n where "n = nat (selectedCalendarDay ui - 1)"
  have n: "int n = selectedCalendarDay ui - 1"
    using assms(3) by (simp add: n_def)
  have "snd (renderCalendar_cell n (0, calendar_startWeekday lib ui))
      = (calendar_startWeekday lib ui + int n) mod 7"
    using renderCalendar_cell_eq [OF assms(1,2), of n 0] by simp
  also have "\<dots> = (calendar_startWeekday lib ui + selectedCalendarDay ui - 1) mod 7"
    unfolding n by (simp add: algebra_simps)
  also have "\<dots> = calendar_col lib ui"
    using assms by (simp add: calendar_col_def smod_nonneg)
  finally show ?thesis
    by (simp add: n_def)
qed

lemma calendar_startWeekday_day [simp]:
  "calendar_startWeekday lib (ui\<lparr>selectedCalendarDay := d\<rparr>) = calendar_startWeekday lib ui"
  by (simp add: calendar_startWeekday_def)

lemma row_left: "0 \<le> a \<Longrightarrow> 0 < (a + 1) mod 7 \<Longrightarrow> (a::int) div 7 = (a + 1) div 7"
  by presburger

lemma row_right: "0 \<le> a \<Longrightarrow> a mod 7 < 6 \<Longrightarrow> ((a::int) + 1) div 7 = a div 7"
  by presburger

text \<open>
  C6.  In the calendar view, with the weekday of the 1st between 0 and 6 and the
  cursor on a day of the month: \<open>h\<close> (left) leaves the cursor where it is when it is
  in column 0 or on day 1, and moves it one day back otherwise; \<open>l\<close> (right) leaves
  it where it is when it is in column 6 or on the last day of the month, and moves it
  one day on otherwise; neither changes the row of the grid in which the cursor is
  drawn; and when the 1st falls on weekday 5, \<open>h\<close> on day 1 changes nothing.
\<close>

theorem calendar_left_right_within_row:
  assumes sw: "0 \<le> calendar_startWeekday lib ui"
    and sw6: "calendar_startWeekday lib ui \<le> 6"
    and d1: "1 \<le> selectedCalendarDay ui"
    and d2: "selectedCalendarDay ui \<le> calendar_daysInMonth lib ui"
  shows "selectedCalendarDay (processCalendarInput lib (CHR ''h'') ui)
           = (if calendar_col lib ui = 0 \<or> selectedCalendarDay ui = 1
              then selectedCalendarDay ui else selectedCalendarDay ui - 1)
       \<and> selectedCalendarDay (processCalendarInput lib (CHR ''l'') ui)
           = (if calendar_col lib ui = 6 \<or> selectedCalendarDay ui = calendar_daysInMonth lib ui
              then selectedCalendarDay ui else selectedCalendarDay ui + 1)
       \<and> calendar_row lib (processCalendarInput lib (CHR ''h'') ui) = calendar_row lib ui
       \<and> calendar_row lib (processCalendarInput lib (CHR ''l'') ui) = calendar_row lib ui
       \<and> (calendar_startWeekday lib ui = 5 \<and> selectedCalendarDay ui = 1
            \<longrightarrow> processCalendarInput lib (CHR ''h'') ui = ui)"
proof -
  let ?a = "calendar_startWeekday lib ui + selectedCalendarDay ui - 1"
  have a: "0 \<le> ?a"
    using sw d1 by simp
  have col: "calendar_col lib ui = ?a mod 7"
    using a by (simp add: calendar_col_def smod_nonneg)
  then have col_range: "0 \<le> calendar_col lib ui" "calendar_col lib ui \<le> 6"
    by simp_all
  have row: "calendar_row lib ui = ?a div 7"
    by (rule calendar_row_eq [OF sw sw6 d1])
  have left: "selectedCalendarDay (processCalendarInput lib (CHR ''h'') ui)
           = (if calendar_col lib ui = 0 \<or> selectedCalendarDay ui = 1
              then selectedCalendarDay ui else selectedCalendarDay ui - 1)"
    using col_range d1 by (auto simp: processCalendarInput_h)
  have right: "selectedCalendarDay (processCalendarInput lib (CHR ''l'') ui)
           = (if calendar_col lib ui = 6 \<or> selectedCalendarDay ui = calendar_daysInMonth lib ui
              then selectedCalendarDay ui else selectedCalendarDay ui + 1)"
    using col_range d2 by (auto simp: processCalendarInput_l)
  have row_h: "calendar_row lib (processCalendarInput lib (CHR ''h'') ui) = calendar_row lib ui"
  proof (cases "selectedCalendarDay ui > 1 \<and> calendar_col lib ui > 0")
    case True
    let ?b = "calendar_startWeekday lib ui + (selectedCalendarDay ui - 1) - 1"
    have b: "0 \<le> ?b"
      using sw True by simp
    have m: "0 < (?b + 1) mod 7"
      using True col by (simp add: algebra_simps)
    have "?b div 7 = (?b + 1) div 7"
      by (rule row_left [OF b m])
    moreover have "calendar_row lib (ui\<lparr>selectedCalendarDay := selectedCalendarDay ui - 1\<rparr>)
        = ?b div 7"
      using calendar_row_eq [of lib "ui\<lparr>selectedCalendarDay := selectedCalendarDay ui - 1\<rparr>"]
        sw sw6 True by simp
    ultimately show ?thesis
      using True row by (simp add: processCalendarInput_h algebra_simps)
  next
    case False
    then show ?thesis
      by (auto simp: processCalendarInput_h)
  qed
  have row_l: "calendar_row lib (processCalendarInput lib (CHR ''l'') ui) = calendar_row lib ui"
  proof (cases "calendar_col lib ui < 6 \<and> selectedCalendarDay ui < calendar_daysInMonth lib ui")
    case True
    have m: "?a mod 7 < 6"
      using True col by simp
    have "(?a + 1) div 7 = ?a div 7"
      by (rule row_right [OF a m])
    moreover have "calendar_row lib (ui\<lparr>selectedCalendarDay := selectedCalendarDay ui + 1\<rparr>)
        = (?a + 1) div 7"
      using calendar_row_eq [of lib "ui\<lparr>selectedCalendarDay := selectedCalendarDay ui + 1\<rparr>"]
        sw sw6 d1 by (simp add: algebra_simps)
    ultimately show ?thesis
      using True row by (simp add: processCalendarInput_l)
  next
    case False
    then show ?thesis
      by (auto simp: processCalendarInput_l)
  qed
  have ex: "calendar_startWeekday lib ui = 5 \<and> selectedCalendarDay ui = 1
            \<longrightarrow> processCalendarInput lib (CHR ''h'') ui = ui"
    by (simp add: processCalendarInput_h)
  show ?thesis
    using left right row_h row_l ex by simp
qed

lemma sscanf_august: "gregorian_sscanf ''15/08/2025'' = (15, 8, 2025)"
  by code_simp

lemma mktime_august:
  "gregorian_mktime \<lparr>tm_mday = 1, tm_mon = 7, tm_year = 125, tm_wday = 0\<rparr>
     = (\<lparr>tm_mday = 1, tm_mon = 7, tm_year = 125, tm_wday = 5\<rparr>, 1754006400)"
  by code_simp

lemma mktime_september:
  "gregorian_mktime \<lparr>tm_mday = 1, tm_mon = 8, tm_year = 125, tm_wday = 5\<rparr>
     = (\<lparr>tm_mday = 1, tm_mon = 8, tm_year = 125, tm_wday = 1\<rparr>, 1756684800)"
  by code_simp

lemma mktime_september_again:
  "gregorian_mktime \<lparr>tm_mday = 1, tm_mon = 8, tm_year = 125, tm_wday = 1\<rparr>
     = (\<lparr>tm_mday = 1, tm_mon = 8, tm_year = 125, tm_wday = 1\<rparr>, 1756684800)"
  by code_simp

lemma localtime_august_31:
  "gregorian_localtime 1756598400 = \<lparr>tm_mday = 31, tm_mon = 7, tm_year = 125, tm_wday = 0\<rparr>"
  by code_simp

lemma august_2025_month: "calendar_month gregorian august_2025 = ((15, 8, 2025), 31, 5)"
  by (simp add: calendar_month_def gregorian_def august_2025_def UIManager_new_def
      sscanf_august mktime_august mktime_september mktime_september_again localtime_august_31)

theorem calendar_left_right_within_row_witness:
  "0 \<le> calendar_startWeekday gregorian august_2025
   \<and> calendar_startWeekday gregorian august_2025 \<le> 6 \<and> 1 \<le> selectedCalendarDay august_2025
   \<and> selectedCalendarDay august_2025 \<le> calendar_daysInMonth gregorian august_2025
   \<and> calendar_startWeekday gregorian august_2025 = 5 \<and> selectedCalendarDay august_2025 = 1
   \<and> processCalendarInput gregorian (CHR ''h'') august_2025 = august_2025
   \<and> selectedCalendarDay (processCalendarInput gregorian (CHR ''l'') august_2025) = 2"
proof -
  have sw: "calendar_startWeekday gregorian august_2025 = 5"
    by (simp add: calendar_startWeekday_def august_2025_month)
  have dim: "calendar_daysInMonth gregorian august_2025 = 31"
    by (simp add: calendar_daysInMonth_def august_2025_month)
  have d: "selectedCalendarDay august_2025 = 1"
    by (simp add: august_2025_def UIManager_new_def)
  have col: "calendar_col gregorian august_2025 = 5"
    by (simp add: calendar_col_def sw d smod_nonneg)
  show ?thesis
    using calendar_left_right_within_row [of gregorian august_2025] sw dim d col by simp
qed

section \<open>Template scaling\<close>

lemma int_mul_in_range:
  "INT_MIN \<le> a * b \<Longrightarrow> a * b \<le> INT_MAX \<Longrightarrow> int_mul a b = a * b"
  by (simp add: int_mul_def wrap_int_def INT_MIN_def INT_MAX_def)

text \<open>
  C3 as amended.  For every template and every entered number of grams such that
  each product of a per-100g value and the grams is within the range of \<open>int\<close>, the
  food built from the template has the entered grams and, for calories, carbs,
  protein and fat, the product divided by 100 with the division that truncates
  towards zero (which is the floor when the product is not negative).
\<close>

theorem template_scaling:
  assumes "INT_MIN \<le> calories t * g" and "calories t * g \<le> INT_MAX"
    and "INT_MIN \<le> carbs t * g" and "carbs t * g \<le> INT_MAX"
    and "INT_MIN \<le> protein t * g" and "protein t * g \<le> INT_MAX"
    and "INT_MIN \<le> fat t * g" and "fat t * g \<le> INT_MAX"
  shows "instantiateTemplate t g =
           t\<lparr>grams := g,
             calories := (calories t * g) sdiv 100,
             carbs := (carbs t * g) sdiv 100,
             protein := (protein t * g) sdiv 100,
             fat := (fat t * g) sdiv 100\<rparr>
       \<and> (0 \<le> calories t * g \<longrightarrow> (calories t * g) sdiv 100 = calories t * g div 100)
       \<and> (0 \<le> carbs t * g \<longrightarrow> (carbs t * g) sdiv 100 = carbs t * g div 100)
       \<and> (0 \<le> protein t * g \<longrightarrow> (protein t * g) sdiv 100 = protein t * g div 100)
       \<and> (0 \<le> fat t * g \<longrightarrow> (fat t * g) sdiv 100 = fat t * g div 100)"
  using assms by (simp add: instantiateTemplate_def int_mul_in_range sdiv_nonneg)

text \<open>The example of the specification: 52 and 14 per 100 grams at 150 grams.\<close>

theorem template_scaling_witness:
  "INT_MIN \<le> calories apple_template * 150 \<and> calories apple_template * 150 \<le> INT_MAX
   \<and> INT_MIN \<le> carbs apple_template * 150 \<and> carbs apple_template * 150 \<le> INT_MAX
   \<and> INT_MIN \<le> protein apple_template * 150 \<and> protein apple_template * 150 \<le> INT_MAX
   \<and> INT_MIN \<le> fat apple_template * 150 \<and> fat apple_template * 150 \<le> INT_MAX
   \<and> instantiateTemplate apple_template 150
       = \<lparr>name = ''Apple'', calories = 78, carbs = 21, protein = 0, fat = 0, grams = 150\<rparr>"
  using template_scaling [of apple_template 150]
  by (simp add: apple_template_def apple_def INT_MIN_def INT_MAX_def signed_divide_int_def)

text \<open>
  C3 as stated fails where a product leaves the range of \<open>int\<close>: at 100000000 grams
  the product with 52 calories is 5200000000, of which 905032704 is kept, and the
  food has 9050327 calories, not 52000000.
\<close>

theorem template_scaling_overflow:
  "INT_MAX < calories apple_template * 100000000
   \<and> (calories apple_template * 100000000) sdiv 100 = 52000000
   \<and> calories (instantiateTemplate apple_template 100000000) = 9050327"
  by (simp add: instantiateTemplate_def int_mul_def wrap_int_def INT_MAX_def
      apple_template_def apple_def signed_divide_int_def)

section \<open>Text capture in the dialogs\<close>

lemma stoi_abc: "stoi ''abc'' = Inl invalid_argument"
  by code_simp

text \<open>
  C7 as amended.  When the line read for a numeric field does not convert to an
  \<open>int\<close>: the dialogs for a custom food, for editing a food, for creating a template
  and for resetting the goals keep every value and go on; the dialog for the first
  goals sets the field to 0 and goes on.
\<close>

theorem numeric_parse_failure:
  assumes "stoi input = Inl e"
  shows "(1 \<le> localSelection form \<and> localSelection form \<le> 5 \<longrightarrow>
            handleAddCustomFood_key (CHR 0x0D) input form = (form, Editing)
          \<and> handleEditFood_key (CHR 0x0D) input form = (form, Editing))
       \<and> (1 \<le> editSelection tform \<and> editSelection tform \<le> 4 \<longrightarrow>
            createTemplate_key (CHR 0x0D) input tform = (tform, Editing))
       \<and> (0 \<le> localSelection gform \<and> localSelection gform \<le> 3 \<longrightarrow>
            handleResetGoals_key (CHR 0x0D) input gform = (gform, Editing)
          \<and> handleStartGoals_key (CHR 0x0D) input gform
              = (gform\<lparr>fieldValues := (fieldValues gform)[nat (localSelection gform) := 0]\<rparr>,
                 Editing))"
  using assms
  by (simp add: handleAddCustomFood_key_def handleEditFood_key_def createTemplate_key_def
      handleResetGoals_key_def handleStartGoals_key_def)

theorem numeric_parse_failure_witness:
  "stoi ''abc'' = Inl invalid_argument
   \<and> handleAddCustomFood_key (CHR 0x0D) ''abc'' (handleAddCustomFood_init\<lparr>localSelection := 1\<rparr>)
       = (handleAddCustomFood_init\<lparr>localSelection := 1\<rparr>, Editing)
   \<and> handleEditFood_key (CHR 0x0D) ''abc'' ((handleEditFood_init apple)\<lparr>localSelection := 1\<rparr>)
       = ((handleEditFood_init apple)\<lparr>localSelection := 1\<rparr>, Editing)
   \<and> createTemplate_key (CHR 0x0D) ''abc'' (createTemplate_init\<lparr>editSelection := 1\<rparr>)
       = (createTemplate_init\<lparr>editSelection := 1\<rparr>, Editing)
   \<and> handleResetGoals_key (CHR 0x0D) ''abc'' goals_entered = (goals_entered, Editing)
   \<and> handleStartGoals_key (CHR 0x0D) ''abc'' goals_entered
       = (\<lparr>localSelection = 0, fieldValues = [0, 250, 150, 70]\<rparr>, Editing)"
  using numeric_parse_failure [OF stoi_abc,
      of "handleAddCustomFood_init\<lparr>localSelection := 1\<rparr>"
         "createTemplate_init\<lparr>editSelection := 1\<rparr>" goals_entered]
    numeric_parse_failure [OF stoi_abc, of "(handleEditFood_init apple)\<lparr>localSelection := 1\<rparr>"]
  by (simp add: handleAddCustomFood_init_def handleEditFood_init_def createTemplate_init_def
      goals_entered_def stoi_abc)

text \<open>
  C7 as stated fails in the dialog for the first goals: with 2000 calories entered,
  the line \<open>abc\<close> for the calories leaves 0 there.
\<close>

theorem start_goals_parse_failure_resets:
  "stoi ''abc'' = Inl invalid_argument
   \<and> fieldValues goals_entered = [2000, 250, 150, 70]
   \<and> fieldValues (fst (handleStartGoals_key (CHR 0x0D) ''abc'' goals_entered))
       = [0, 250, 150, 70]"
  by (simp add: handleStartGoals_key_def stoi_abc goals_entered_def)

text \<open>
  In the dialogs for a custom food and for editing a food, a name of more than 21
  characters is cut to its first 21 characters.
\<close>

lemma food_name_truncated:
  assumes "length input > maxNameLen" and "localSelection form = 0"
  shows "name (held (fst (handleAddCustomFood_key (CHR 0x0D) input form))) = take 21 input"
    and "name (held (fst (handleEditFood_key (CHR 0x0D) input form))) = take 21 input"
  using assms
  by (auto simp: handleAddCustomFood_key_def handleEditFood_key_def maxNameLen_def)

text \<open>
  C8.  The dialog for creating a template does not cut the name: a line of 22
  characters is kept whole as the template name, where the dialog for a custom food
  keeps its first 21 characters.
\<close>

theorem create_template_name_not_truncated:
  "length ''ABCDEFGHIJKLMNOPQRSTUV'' > maxNameLen
   \<and> name (tpl (fst (createTemplate_key (CHR 0x0D) ''ABCDEFGHIJKLMNOPQRSTUV'' createTemplate_init)))
       = ''ABCDEFGHIJKLMNOPQRSTUV''
   \<and> name (held (fst (handleAddCustomFood_key (CHR 0x0D) ''ABCDEFGHIJKLMNOPQRSTUV''
         handleAddCustomFood_init)))
       = ''ABCDEFGHIJKLMNOPQRSTU''"
  by (simp add: createTemplate_key_def createTemplate_init_def maxNameLen_def
      handleAddCustomFood_key_def handleAddCustomFood_init_def)

section \<open>Loading and saving\<close>

subsection \<open>Numbers are read back as they are written\<close>

lemma digit_char_of:
  "k < 10 \<Longrightarrow> (of_char (char_of (48 + (k::nat)) :: char) :: nat) = 48 + k"
  by simp

lemma isdigit_char_of: "k < 10 \<Longrightarrow> isdigit (char_of (48 + (k::nat)))"
  by (simp add: isdigit_def)

lemma show_nat_digits: "c \<in> set (show_nat n) \<Longrightarrow> isdigit c"
proof (induction n arbitrary: c rule: show_nat.induct)
  case (1 n)
  show ?case
  proof (cases "n < 10")
    case True
    then show ?thesis
      using "1.prems" by (simp add: show_nat.simps [of n] isdigit_char_of)
  next
    case False
    have "n mod 10 < 10" by simp
    then have "isdigit (char_of (48 + n mod 10))"
      by (rule isdigit_char_of)
    then show ?thesis
      using False "1.prems" "1.IH" by (auto simp: show_nat.simps [of n])
  qed
qed

lemma show_nat_nonempty: "show_nat n \<noteq> []"
  by (subst show_nat.simps) simp

lemma digits_value_snoc:
  "digits_value (ds @ [c]) = 10 * digits_value ds + ((of_char c :: nat) - 48)"
  by (simp add: digits_value_def)

lemma digits_value_show_nat: "digits_value (show_nat n) = n"
proof (induction n rule: show_nat.induct)
  case (1 n)
  show ?case
  proof (cases "n < 10")
    case True
    then show ?thesis
      by (simp add: show_nat.simps [of n] digits_value_def)
  next
    case False
    have "digits_value (show_nat n)
        = 10 * digits_value (show_nat (n div 10)) + ((of_char (char_of (48 + n mod 10) :: char) :: nat) - 48)"
      using False by (simp add: show_nat.simps [of n] digits_value_snoc)
    also have "\<dots> = 10 * (n div 10) + n mod 10"
      using False "1.IH" digit_char_of [of "n mod 10"] by simp
    finally show ?thesis by simp
  qed
qed

lemma takeWhile_isdigit_show_nat: "takeWhile isdigit (show_nat n) = show_nat n"
  using show_nat_digits [of _ n] by simp

lemma isdigit_not_sign: "isdigit c \<Longrightarrow> c \<noteq> CHR ''-'' \<and> c \<noteq> CHR ''+'' \<and> c \<noteq> CHR ''|'' \<and> \<not> isspace c"
  by (auto simp: isdigit_def isspace_def)

lemma hd_show_nat: "isdigit (hd (show_nat n))"
  using show_nat_nonempty [of n] show_nat_digits [of "hd (show_nat n)" n] by simp

lemma signed_digits_to_string: "signed_digits (to_string n) = Some n"
proof (cases "n < 0")
  case True
  then show ?thesis
    by (simp add: to_string_def signed_digits_def takeWhile_isdigit_show_nat
        show_nat_nonempty digits_value_show_nat)
next
  case False
  have "hd (show_nat (nat n)) \<noteq> CHR ''-''" "hd (show_nat (nat n)) \<noteq> CHR ''+''"
    using isdigit_not_sign [OF hd_show_nat [of "nat n"]] by simp_all
  then show ?thesis
    using False
    by (simp add: to_string_def signed_digits_def takeWhile_isdigit_show_nat
        show_nat_nonempty digits_value_show_nat)
qed

lemma to_string_nonempty: "to_string n \<noteq> []"
  by (simp add: to_string_def show_nat_nonempty)

lemma to_string_no_bar: "CHR ''|'' \<notin> set (to_string n)"
  using isdigit_not_sign show_nat_digits by (auto simp: to_string_def)

lemma dropWhile_isspace_to_string: "dropWhile isspace (to_string n) = to_string n"
proof (cases "n < 0")
  case True
  then show ?thesis
    by (simp add: to_string_def isspace_def)
next
  case False
  obtain c cs where s: "show_nat (nat n) = c # cs"
    using show_nat_nonempty [of "nat n"] by (cases "show_nat (nat n)") simp_all
  then have "isdigit c"
    using show_nat_digits [of c "nat n"] by simp
  then have "\<not> isspace c"
    using isdigit_not_sign by simp
  then show ?thesis
    using False s by (simp add: to_string_def)
qed

lemma stoi_to_string:
  "INT_MIN \<le> n \<Longrightarrow> n \<le> INT_MAX \<Longrightarrow> stoi (to_string n) = Inr n"
  by (simp add: stoi_def dropWhile_isspace_to_string signed_digits_to_string)

subsection \<open>Tokens of a food line\<close>

lemma getline_delim:
  "delim \<notin> set a \<Longrightarrow> getline (Some (a @ delim # b)) delim = (Some a, Some b)"
proof -
  assume "delim \<notin> set a"
  then have a: "\<And>x. x \<in> set a \<Longrightarrow> x \<noteq> delim"
    by auto
  have d: "dropWhile (\<lambda>c. c \<noteq> delim) (a @ delim # b) = delim # b"
    using a by (simp add: dropWhile_append3)
  have t: "takeWhile (\<lambda>c. c \<noteq> delim) (a @ delim # b) = a"
    using a by (simp add: takeWhile_tail)
  show ?thesis
  proof (cases "a @ delim # b")
    case Nil
    then show ?thesis by simp
  next
    case (Cons c cs)
    have "getline (Some (c # cs)) delim =
        (case dropWhile (\<lambda>c. c \<noteq> delim) (c # cs) of
           [] \<Rightarrow> (Some (c # cs), None)
         | _ # rest \<Rightarrow> (Some (takeWhile (\<lambda>c. c \<noteq> delim) (c # cs)), Some rest))"
      by (simp add: getline_def)
    then show ?thesis
      unfolding Cons [symmetric] d t by simp
  qed
qed

lemma getline_last:
  "s \<noteq> [] \<Longrightarrow> delim \<notin> set s \<Longrightarrow> getline (Some s) delim = (Some s, None)"
proof -
  assume ne: "s \<noteq> []" and "delim \<notin> set s"
  then have d: "dropWhile (\<lambda>c. c \<noteq> delim) s = []"
    by auto
  obtain c cs where s: "s = c # cs"
    using ne by (cases s) simp_all
  have "getline (Some (c # cs)) delim =
      (case dropWhile (\<lambda>c. c \<noteq> delim) (c # cs) of
         [] \<Rightarrow> (Some (c # cs), None)
       | _ # rest \<Rightarrow> (Some (takeWhile (\<lambda>c. c \<noteq> delim) (c # cs)), Some rest))"
    by (simp add: getline_def)
  then show ?thesis
    unfolding s [symmetric] d by simp
qed

lemma loadData_field_number:
  assumes "INT_MIN \<le> n" and "n \<le> INT_MAX"
  shows "loadData_field set_field (food, Some (to_string n @ CHR ''|'' # rest))
           = Inr (set_field n food, Some rest)"
    and "loadData_field set_field (food, Some (to_string n)) = Inr (set_field n food, None)"
  using assms getline_delim [OF to_string_no_bar, of n rest]
    getline_last [OF to_string_nonempty to_string_no_bar, of n]
  by (simp_all add: loadData_field_def stoi_to_string)

text \<open>
  Every food line whose calories token does not convert makes \<open>loadData\<close> throw,
  whatever the name and the other fields are.
\<close>

lemma loadData_food_bad_calories:
  assumes "CHR ''|'' \<notin> set nm" and "CHR ''|'' \<notin> set tok" and "stoi tok = Inl e"
  shows "loadData_food (''FOOD:'' @ nm @ ''|'' @ tok @ ''|'' @ rest) = Inl e"
proof -
  have 1: "getline (Some (nm @ CHR ''|'' # tok @ CHR ''|'' # rest)) (CHR ''|'')
      = (Some nm, Some (tok @ CHR ''|'' # rest))"
    using assms(1) by (rule getline_delim)
  have 2: "getline (Some (tok @ CHR ''|'' # rest)) (CHR ''|'') = (Some tok, Some rest)"
    using assms(2) by (rule getline_delim)
  show ?thesis
    using 1 2 assms(3)
    by (simp add: loadData_food_def loadData_field_def and_then_def Let_def)
qed

text \<open>
  Every food line that \<open>saveData\<close> writes is read back with the numbers it was
  written with and with a space in front of the name.
\<close>

lemma loadData_food_saved:
  assumes "CHR ''|'' \<notin> set (name f)"
    and "INT_MIN \<le> calories f" and "calories f \<le> INT_MAX"
    and "INT_MIN \<le> carbs f" and "carbs f \<le> INT_MAX"
    and "INT_MIN \<le> protein f" and "protein f \<le> INT_MAX"
    and "INT_MIN \<le> fat f" and "fat f \<le> INT_MAX"
    and "INT_MIN \<le> grams f" and "grams f \<le> INT_MAX"
  shows "loadData_food (''FOOD: '' @ name f @ ''|'' @ to_string (calories f) @ ''|''
           @ to_string (carbs f) @ ''|'' @ to_string (protein f) @ ''|''
           @ to_string (fat f) @ ''|'' @ to_string (grams f))
         = Inr (f\<lparr>name := CHR '' '' # name f\<rparr>)"
proof -
  have "CHR ''|'' \<notin> set (CHR '' '' # name f)"
    using assms(1) by simp
  from getline_delim [OF this]
  have 1: "getline (Some (CHR '' '' # name f @ CHR ''|'' # rest)) (CHR ''|'')
      = (Some (CHR '' '' # name f), Some rest)" for rest
    by simp
  show ?thesis
    using assms(2-)
    by (simp add: loadData_food_def Let_def 1 and_then_def loadData_field_number Food_new_def)
qed

subsection \<open>Saving and loading a store\<close>

lemma read_lines_line:
  "CHR 0x0A \<notin> set l \<Longrightarrow> read_lines cur (l @ CHR 0x0A # rest) = (cur @ l) # read_lines [] rest"
  by (induction l arbitrary: cur) auto

lemma to_string_no_LF: "CHR 0x0A \<notin> set (to_string n)"
proof -
  have "\<not> isdigit (CHR 0x0A)" by (simp add: isdigit_def)
  then show ?thesis
    using show_nat_digits by (auto simp: to_string_def)
qed

lemma food_line_no_LF: "storable_food f \<Longrightarrow> CHR 0x0A \<notin> set (food_line f)"
  by (simp add: storable_food_def food_line_def to_string_no_LF)

lemma date_line_no_LF: "storable_record r \<Longrightarrow> CHR 0x0A \<notin> set (date_line r)"
  by (simp add: storable_record_def date_line_def)

lemma goals_line_no_LF: "CHR 0x0A \<notin> set (goals_line g)"
  by (simp add: goals_line_def to_string_no_LF)

lemma saveData_food_line: "saveData_food f = food_line f @ CHR 0x0A # []"
  by (simp add: saveData_food_def food_line_def)

lemma read_lines_foods:
  "list_all storable_food fs \<Longrightarrow>
   read_lines [] (concat (map saveData_food fs) @ rest) = map food_line fs @ read_lines [] rest"
proof (induction fs)
  case Nil
  then show ?case by simp
next
  case (Cons f fs)
  have f: "storable_food f" and fs: "list_all storable_food fs"
    using Cons.prems by simp_all
  have "concat (map saveData_food (f # fs)) @ rest
      = food_line f @ CHR 0x0A # (concat (map saveData_food fs) @ rest)"
    by (simp add: saveData_food_line [of f])
  also have "read_lines [] \<dots>
      = ([] @ food_line f) # read_lines [] (concat (map saveData_food fs) @ rest)"
    by (intro read_lines_line food_line_no_LF f)
  also have "\<dots> = food_line f # map food_line fs @ read_lines [] rest"
    unfolding Cons.IH [OF fs] by simp
  finally show ?case by simp
qed

lemma read_lines_records:
  "list_all storable_record rs \<Longrightarrow>
   read_lines [] (concat (map saveData_record rs)) = concat (map record_lines rs)"
proof (induction rs)
  case Nil
  then show ?case by simp
next
  case (Cons r rs)
  have r: "storable_record r" and rs: "list_all storable_record rs"
    using Cons.prems by simp_all
  have fs: "list_all storable_food (foods r)"
    using r by (simp add: storable_record_def)
  have "concat (map saveData_record (r # rs))
      = date_line r @ CHR 0x0A # (concat (map saveData_food (foods r))
          @ concat (map saveData_record rs))"
    by (simp add: saveData_record_def [of r] date_line_def)
  also have "read_lines [] \<dots>
      = ([] @ date_line r) # read_lines [] (concat (map saveData_food (foods r))
          @ concat (map saveData_record rs))"
    by (intro read_lines_line date_line_no_LF r)
  also have "\<dots> = date_line r # map food_line (foods r) @ concat (map record_lines rs)"
    unfolding read_lines_foods [OF fs] Cons.IH [OF rs] by simp
  finally show ?case
    by (simp add: record_lines_def [of r])
qed

lemma read_lines_saveData:
  "list_all storable_record (records dm) \<Longrightarrow>
   read_lines [] (saveData dm) = goals_line (dailyGoals dm) # concat (map record_lines (records dm))"
proof -
  assume rs: "list_all storable_record (records dm)"
  have "saveData dm
      = goals_line (dailyGoals dm) @ CHR 0x0A # concat (map saveData_record (records dm))"
    by (simp add: saveData_def goals_line_def)
  also have "read_lines [] \<dots>
      = ([] @ goals_line (dailyGoals dm)) # read_lines [] (concat (map saveData_record (records dm)))"
    by (intro read_lines_line goals_line_no_LF)
  finally show ?thesis
    unfolding read_lines_records [OF rs] by simp
qed

lemma takeWhile_digits_append:
  "ends_number rest \<Longrightarrow> takeWhile isdigit (show_nat m @ rest) = show_nat m"
  using show_nat_digits [of _ m] by (simp add: ends_number_def)

lemma dropWhile_digits_append:
  "ends_number rest \<Longrightarrow> dropWhile isdigit (show_nat m @ rest) = rest"
proof -
  assume "ends_number rest"
  then have "dropWhile isdigit rest = rest"
    by (cases rest) (auto simp: ends_number_def split: if_splits)
  then show ?thesis
    using show_nat_digits [of _ m] by simp
qed

lemma hd_show_nat_append: "hd (show_nat m @ rest) = hd (show_nat m)"
  using show_nat_nonempty [of m] by simp

lemma extract_int_Some:
  assumes "dropWhile isspace s = s1" and "s1 \<noteq> []" and "signed_digits s1 = Some v"
    and "INT_MIN \<le> v" and "v \<le> INT_MAX"
    and "dropWhile isdigit (if hd s1 = CHR ''-'' \<or> hd s1 = CHR ''+'' then tl s1 else s1) = r"
  shows "extract_int (Some s) x = (v, Some r)"
  using assms by (simp add: extract_int_def Let_def)

lemma extract_int_number:
  assumes "in_int n" and "ends_number rest"
  shows "extract_int (Some (CHR '' '' # to_string n @ rest)) x = (n, Some rest)"
proof (cases "n < 0")
  case True
  let ?s1 = "CHR ''-'' # show_nat (nat (- n)) @ rest"
  have s: "dropWhile isspace (CHR '' '' # to_string n @ rest) = ?s1"
    using True by (simp add: to_string_def isspace_def)
  have v: "signed_digits ?s1 = Some n"
    using True
    by (simp add: signed_digits_def takeWhile_digits_append [OF assms(2)] show_nat_nonempty
        digits_value_show_nat)
  have r: "dropWhile isdigit (if hd ?s1 = CHR ''-'' \<or> hd ?s1 = CHR ''+'' then tl ?s1 else ?s1)
      = rest"
    by (simp add: dropWhile_digits_append [OF assms(2)])
  show ?thesis
    using assms(1) by (intro extract_int_Some [OF s _ v _ _ r]) (simp_all add: in_int_def)
next
  case False
  let ?s1 = "show_nat (nat n) @ rest"
  have h: "isdigit (hd ?s1)"
    unfolding hd_show_nat_append by (rule hd_show_nat)
  then have h': "\<not> isspace (hd ?s1)" "hd ?s1 \<noteq> CHR ''-''" "hd ?s1 \<noteq> CHR ''+''"
    using isdigit_not_sign by simp_all
  have ne: "?s1 \<noteq> []"
    using show_nat_nonempty by simp
  have s: "dropWhile isspace (CHR '' '' # to_string n @ rest) = ?s1"
  proof -
    obtain c cs where c: "?s1 = c # cs"
      using ne by (cases ?s1) simp_all
    then have "\<not> isspace c"
      using h'(1) by simp
    then have "dropWhile isspace (c # cs) = c # cs"
      by simp
    then have "dropWhile isspace ?s1 = ?s1"
      unfolding c .
    moreover have "to_string n = show_nat (nat n)"
      using False by (simp add: to_string_def)
    moreover have "isspace (CHR '' '')"
      by (simp add: isspace_def)
    ultimately show ?thesis
      by simp
  qed
  have v: "signed_digits ?s1 = Some n"
  proof -
    have "takeWhile isdigit ?s1 = show_nat (nat n)"
      by (rule takeWhile_digits_append [OF assms(2)])
    moreover have "int (digits_value (show_nat (nat n))) = n"
      using False by (simp add: digits_value_show_nat)
    ultimately show ?thesis
      unfolding signed_digits_def Let_def using h'(2,3) show_nat_nonempty [of "nat n"]
      by simp
  qed
  have r: "dropWhile isdigit (if hd ?s1 = CHR ''-'' \<or> hd ?s1 = CHR ''+'' then tl ?s1 else ?s1)
      = rest"
    using h'(2,3) by (simp add: dropWhile_digits_append [OF assms(2)])
  show ?thesis
    using assms(1) by (intro extract_int_Some [OF s ne v _ _ r]) (simp_all add: in_int_def)
qed

lemma extract_int_number_last:
  "in_int n \<Longrightarrow> extract_int (Some (CHR '' '' # to_string n)) x = (n, Some [])"
  using extract_int_number [of n "[]" x] by (simp add: ends_number_def)

lemma ends_number_space: "ends_number (CHR '' '' # rest)"
  by (simp add: ends_number_def isdigit_def)

lemma map_comma_to_string:
  "map (\<lambda>c. if c = CHR '','' then CHR '' '' else c) (to_string n) = to_string n"
proof -
  have "\<not> isdigit (CHR '','')"
    by (simp add: isdigit_def)
  then have d: "c \<in> set (show_nat m) \<Longrightarrow> c \<noteq> CHR '',''" for c m
    using show_nat_digits [of c m] by auto
  have "c \<in> set (to_string n) \<Longrightarrow> c \<noteq> CHR '',''" for c
    using d [of c] by (cases "n < 0") (auto simp: to_string_def)
  then show ?thesis
    by (simp add: map_idI)
qed

lemma loadData_goals_saved:
  assumes "in_int (DailyGoals.calories g)" and "in_int (DailyGoals.carbs g)"
    and "in_int (DailyGoals.protein g)" and "in_int (DailyGoals.fat g)"
  shows "loadData_goals (goals_line g) g0 = g"
proof -
  let ?a = "to_string (DailyGoals.calories g)" and ?b = "to_string (DailyGoals.carbs g)"
  let ?c = "to_string (DailyGoals.protein g)" and ?d = "to_string (DailyGoals.fat g)"
  have str: "map (\<lambda>c. if c = CHR '','' then CHR '' '' else c) (drop 12 (goals_line g))
      = CHR '' '' # ?a @ CHR '' '' # ?b @ CHR '' '' # ?c @ CHR '' '' # ?d"
    by (simp add: goals_line_def map_comma_to_string)
  have 1: "extract_int (Some (CHR '' '' # ?a @ CHR '' '' # ?b @ CHR '' '' # ?c @ CHR '' '' # ?d)) x1
      = (DailyGoals.calories g, Some (CHR '' '' # ?b @ CHR '' '' # ?c @ CHR '' '' # ?d))" for x1
    by (rule extract_int_number [OF assms(1) ends_number_space])
  have 2: "extract_int (Some (CHR '' '' # ?b @ CHR '' '' # ?c @ CHR '' '' # ?d)) x2
      = (DailyGoals.carbs g, Some (CHR '' '' # ?c @ CHR '' '' # ?d))" for x2
    by (rule extract_int_number [OF assms(2) ends_number_space])
  have 3: "extract_int (Some (CHR '' '' # ?c @ CHR '' '' # ?d)) x3
      = (DailyGoals.protein g, Some (CHR '' '' # ?d))" for x3
    by (rule extract_int_number [OF assms(3) ends_number_space])
  have 4: "extract_int (Some (CHR '' '' # ?d)) x4 = (DailyGoals.fat g, Some [])" for x4
    by (rule extract_int_number_last [OF assms(4)])
  show ?thesis
    by (simp add: loadData_goals_def str Let_def 1 2 3 4)
qed

lemma find_record_None: "d \<notin> date ` set rs \<Longrightarrow> find_record d rs = None"
  by (induction rs) auto

lemma starts_with_goals_line: "starts_with (goals_line g) ''DAILY_GOALS:''"
  by (simp add: starts_with_def goals_line_def)

lemma starts_with_date_line:
  "\<not> starts_with (date_line r) ''DAILY_GOALS:''" "starts_with (date_line r) ''DATE:''"
  by (simp_all add: starts_with_def date_line_def)

lemma starts_with_food_line:
  "\<not> starts_with (food_line f) ''DAILY_GOALS:''" "\<not> starts_with (food_line f) ''DATE:''"
  "starts_with (food_line f) ''FOOD:''"
  by (simp_all add: starts_with_def food_line_def)

lemma loadData_line_goals:
  assumes "in_int (DailyGoals.calories g)" and "in_int (DailyGoals.carbs g)"
    and "in_int (DailyGoals.protein g)" and "in_int (DailyGoals.fat g)"
  shows "loadData_line (goals_line g) (dm, cr) = Inr (dm\<lparr>dailyGoals := g\<rparr>, cr)"
  by (simp add: loadData_line_def starts_with_goals_line loadData_goals_saved [OF assms])

lemma loadData_line_date:
  assumes "storable_record r" and "date r \<notin> date ` set (records dm)"
  shows "loadData_line (date_line r) (dm, cr)
           = Inr (dm\<lparr>records := records dm @ [\<lparr>date = date r, foods = []\<rparr>]\<rparr>,
                  Some (length (records dm)))"
proof -
  have "dropWhile (\<lambda>c. c = CHR '' '' \<or> c = CHR 0x09) (drop 5 (date_line r)) = date r"
    using assms(1) by (simp add: date_line_def storable_record_def)
  then show ?thesis
    using find_record_None [OF assms(2)]
    by (simp add: loadData_line_def starts_with_date_line getRecord_def)
qed

lemma loadData_food_line: "storable_food f \<Longrightarrow> loadData_food (food_line f) = Inr (reload_food f)"
  using loadData_food_saved [of f]
  by (simp add: storable_food_def in_int_def food_line_def reload_food_def)

lemma loadData_line_food:
  assumes "storable_food f"
  shows "loadData_line (food_line f) (dm, Some ri)
           = Inr (dm\<lparr>records := (records dm)
                    [ri := (records dm ! ri)\<lparr>foods := foods (records dm ! ri) @ [reload_food f]\<rparr>]\<rparr>,
                  Some ri)"
  by (simp add: loadData_line_def starts_with_food_line loadData_food_line [OF assms])

lemma loadData_loop_foods:
  "ri < length (records dm) \<Longrightarrow> list_all storable_food fs \<Longrightarrow>
   loadData_loop (map food_line fs @ rest) (dm, Some ri)
     = loadData_loop rest
         (dm\<lparr>records := (records dm)
              [ri := (records dm ! ri)\<lparr>foods := foods (records dm ! ri) @ map reload_food fs\<rparr>]\<rparr>,
          Some ri)"
proof (induction fs arbitrary: dm)
  case Nil
  then show ?case by simp
next
  case (Cons f fs)
  let ?dm1 = "dm\<lparr>records := (records dm)
      [ri := (records dm ! ri)\<lparr>foods := foods (records dm ! ri) @ [reload_food f]\<rparr>]\<rparr>"
  have f: "storable_food f" and fs: "list_all storable_food fs"
    using Cons.prems(2) by simp_all
  have ri: "ri < length (records ?dm1)"
    using Cons.prems(1) by simp
  have "loadData_loop (map food_line (f # fs) @ rest) (dm, Some ri)
      = loadData_loop (map food_line fs @ rest) (?dm1, Some ri)"
    by (simp add: loadData_line_food [OF f])
  also have "\<dots> = loadData_loop rest
      (?dm1\<lparr>records := (records ?dm1)
          [ri := (records ?dm1 ! ri)\<lparr>foods := foods (records ?dm1 ! ri) @ map reload_food fs\<rparr>]\<rparr>,
       Some ri)"
    by (rule Cons.IH [OF ri fs])
  also have "?dm1\<lparr>records := (records ?dm1)
          [ri := (records ?dm1 ! ri)\<lparr>foods := foods (records ?dm1 ! ri) @ map reload_food fs\<rparr>]\<rparr>
      = dm\<lparr>records := (records dm)
          [ri := (records dm ! ri)\<lparr>foods := foods (records dm ! ri) @ map reload_food (f # fs)\<rparr>]\<rparr>"
    using Cons.prems(1) by simp
  finally show ?case .
qed

lemma date_reload_record [simp]: "date (reload_record r) = date r"
  by (simp add: reload_record_def)

lemma loadData_loop_records:
  "list_all storable_record rs \<Longrightarrow> distinct (map date rs) \<Longrightarrow>
   date ` set rs \<inter> date ` set (records dm) = {} \<Longrightarrow>
   \<exists>cr'. loadData_loop (concat (map record_lines rs)) (dm, cr)
           = Inr (dm\<lparr>records := records dm @ map reload_record rs\<rparr>, cr')"
proof (induction rs arbitrary: dm cr)
  case Nil
  then show ?case by simp
next
  case (Cons r rs)
  let ?n = "length (records dm)"
  let ?dm1 = "dm\<lparr>records := records dm @ [\<lparr>date = date r, foods = []\<rparr>]\<rparr>"
  let ?dm2 = "dm\<lparr>records := records dm @ [reload_record r]\<rparr>"
  have r: "storable_record r" and rs: "list_all storable_record rs"
    using Cons.prems(1) by simp_all
  have fs: "list_all storable_food (foods r)"
    using r by (simp add: storable_record_def)
  have new: "date r \<notin> date ` set (records dm)"
    using Cons.prems(3) by auto
  have n: "?n < length (records ?dm1)"
    by simp
  have "loadData_loop (concat (map record_lines (r # rs))) (dm, cr)
      = loadData_loop (map food_line (foods r) @ concat (map record_lines rs)) (?dm1, Some ?n)"
    by (simp add: record_lines_def [of r] loadData_line_date [OF r new])
  also have "\<dots> = loadData_loop (concat (map record_lines rs))
      (?dm1\<lparr>records := (records ?dm1)
          [?n := (records ?dm1 ! ?n)\<lparr>foods := foods (records ?dm1 ! ?n) @ map reload_food (foods r)\<rparr>]\<rparr>,
       Some ?n)"
    by (rule loadData_loop_foods [OF n fs])
  also have "?dm1\<lparr>records := (records ?dm1)
          [?n := (records ?dm1 ! ?n)\<lparr>foods := foods (records ?dm1 ! ?n) @ map reload_food (foods r)\<rparr>]\<rparr>
      = ?dm2"
    by (simp add: reload_record_def)
  finally have step: "loadData_loop (concat (map record_lines (r # rs))) (dm, cr)
      = loadData_loop (concat (map record_lines rs)) (?dm2, Some ?n)" .
  have d: "distinct (map date rs)"
    using Cons.prems(2) by simp
  have disj: "date ` set rs \<inter> date ` set (records ?dm2) = {}"
    using Cons.prems(2,3) by auto
  obtain cr' where "loadData_loop (concat (map record_lines rs)) (?dm2, Some ?n)
      = Inr (?dm2\<lparr>records := records ?dm2 @ map reload_record rs\<rparr>, cr')"
    using Cons.IH [OF rs d disj] by blast
  then show ?case
    unfolding step by simp
qed

text \<open>
  Saving a store and loading the file into a fresh manager gives the goals, the
  dates and the numbers of the store, and every name with a space in front.
\<close>

lemma saveData_loadData:
  assumes "storable dm"
  shows "loadData (Some (saveData dm)) DataManager_new
           = Inr (True, \<lparr>dailyGoals = dailyGoals dm,
                          records = map reload_record (records dm), firstRun = False\<rparr>)"
proof -
  let ?g = "dailyGoals dm"
  let ?dm0 = "DataManager_new\<lparr>dailyGoals := ?g\<rparr>"
  have rs: "list_all storable_record (records dm)" and d: "distinct (map date (records dm))"
    using assms by (simp_all add: storable_def)
  have g: "loadData_line (goals_line ?g) (DataManager_new, None) = Inr (?dm0, None)"
    using assms by (intro loadData_line_goals) (simp_all add: storable_def)
  have e: "date ` set (records dm) \<inter> date ` set (records ?dm0) = {}"
    by (simp add: DataManager_new_def)
  obtain cr' where l: "loadData_loop (concat (map record_lines (records dm))) (?dm0, None)
      = Inr (?dm0\<lparr>records := records ?dm0 @ map reload_record (records dm)\<rparr>, cr')"
    using loadData_loop_records [OF rs d e] by blast
  have "loadData_loop (read_lines [] (saveData dm)) (DataManager_new, None)
      = Inr (?dm0\<lparr>records := records ?dm0 @ map reload_record (records dm)\<rparr>, cr')"
    unfolding read_lines_saveData [OF rs] using g l by simp
  then show ?thesis
    by (simp add: loadData_def DataManager_new_def)
qed

text \<open>
  C1.  Loading a data file with the line \<open>FOOD: Apple|abc|10|0|0|100\<close> after a
  \<open>DATE:\<close> line does not complete: the exception \<open>std::invalid_argument\<close> of
  \<open>std::stoi\<close> leaves \<open>loadData\<close>, and no food entry is produced.
\<close>

theorem loadData_nonnumeric_field_throws:
  "loadData (Some malformed_store) DataManager_new = Inl invalid_argument"
  by code_simp

lemma add_food_new:
  "add_food d food DataManager_new = DataManager_new\<lparr>records := [\<lparr>date = d, foods = [food]\<rparr>]\<rparr>"
  by (simp add: add_food_def getRecord_def DataManager_new_def)

lemma save_apple:
  "saveData (DataManager_new\<lparr>records := [\<lparr>date = ''01/01/2025'', foods =
      [\<lparr>name = ''Apple'', calories = 52, carbs = 14, protein = 0, fat = 0, grams = 100\<rparr>]\<rparr>]\<rparr>)
   = ''DAILY_GOALS: 2000,250,150,70'' @ [CHR 0x0A] @ ''DATE: 01/01/2025'' @ [CHR 0x0A]
       @ ''FOOD: Apple|52|14|0|0|100'' @ [CHR 0x0A]"
  by code_simp

lemma load_apple:
  "loadData (Some (''DAILY_GOALS: 2000,250,150,70'' @ [CHR 0x0A] @ ''DATE: 01/01/2025'' @ [CHR 0x0A]
       @ ''FOOD: Apple|52|14|0|0|100'' @ [CHR 0x0A])) DataManager_new
   = Inr (True, \<lparr>dailyGoals = \<lparr>DailyGoals.calories = 2000, carbs = 250, protein = 150, fat = 70\<rparr>,
        records = [\<lparr>date = ''01/01/2025'', foods =
          [\<lparr>name = '' Apple'', calories = 52, carbs = 14, protein = 0, fat = 0, grams = 100\<rparr>]\<rparr>],
        firstRun = False\<rparr>)"
  by code_simp

text \<open>
  C2.  Saving a store with the default goals and one day with the food \<open>Apple\<close>, and
  loading the file into a fresh manager, does not give the store back: the goals, the
  date and the numbers are the same, but the food is named \<open>Apple\<close> with a space in
  front, the space that \<open>saveData\<close> writes after \<open>FOOD:\<close>.
\<close>

theorem save_load_changes_food_name:
  "loadData (Some (saveData (add_food ''01/01/2025'' apple DataManager_new))) DataManager_new
   = Inr (True, add_food ''01/01/2025'' (apple\<lparr>name := '' Apple''\<rparr>) DataManager_new)"
  unfolding add_food_new apple_def save_apple load_apple
  by (simp add: DataManager_new_def)

end
